theory Spec2Isabelle
  imports Complex_Main "HOL-Library.Sublist" "HOL-Library.AList"
begin

section \<open>JavaScript strings and numbers\<close>

text \<open>
  A JavaScript string is a sequence of UTF-16 code units. The model covers the strings all of
  whose code units are below 256 (Latin-1), one \<^typ>\<open>char\<close> per code unit, so \<open>length\<close> is
  the source's \<open>.length\<close>. JavaScript numbers are modelled by \<^typ>\<open>real\<close>: arithmetic is
  exact, and NaN and the infinities are written out where the source can produce them.
\<close>

datatype error =
    SyntaxError
  | VectorsMustHaveSameLength
  | CannotCalculateCentroidOfEmptySet
  | RangeError
  | TypeError
  | LanceContextError string string "(string \<times> string) list"
  | NaNInIteration

text \<open>
  \<open>toLowerCase\<close> on a code unit below 256: the letters A to Z and U+00C0 to U+00DE, without
  the multiplication sign U+00D7, move up by 32.
\<close>

definition toLowerCaseCode :: "nat \<Rightarrow> nat" where
  "toLowerCaseCode n =
     (if (65 \<le> n \<and> n \<le> 90) \<or> (192 \<le> n \<and> n \<le> 222 \<and> n \<noteq> 215) then n + 32 else n)"

definition toLowerCaseChar :: "char \<Rightarrow> char" where
  "toLowerCaseChar c = char_of (toLowerCaseCode (of_char c))"

definition toLowerCase :: "string \<Rightarrow> string" where
  "toLowerCase s = map toLowerCaseChar s"

text \<open>The class \<open>\s\<close>: TAB, LF, VT, FF, CR, SP and NBSP are its members below 256.\<close>

definition isWhiteSpace :: "char \<Rightarrow> bool" where
  "isWhiteSpace c = ((of_char c :: nat) \<in> {9, 10, 11, 12, 13, 32, 160})"

text \<open>
  \<open>s.split(/\s+/)\<close>: the pieces between the maximal runs of white space; a run at the start
  or at the end of the string leaves an empty piece there, and the empty string gives \<open>[""]\<close>.
\<close>

function splitWhiteSpace :: "string \<Rightarrow> string \<Rightarrow> string list" where
  "splitWhiteSpace [] cur = [rev cur]"
| "splitWhiteSpace (c # cs) cur =
     (if isWhiteSpace c then rev cur # splitWhiteSpace (dropWhile isWhiteSpace cs) []
      else splitWhiteSpace cs (c # cur))"
  by pat_completeness auto
termination
  by (relation "measure (\<lambda>(s, cur). length s)")
     (auto simp: le_imp_less_Suc length_dropWhile_le)

definition split_ws :: "string \<Rightarrow> string list" where
  "split_ws s = splitWhiteSpace s []"

text \<open>\<open>s.includes(t)\<close>: \<open>t\<close> occurs in \<open>s\<close> as a contiguous substring.\<close>

definition str_includes :: "string \<Rightarrow> string \<Rightarrow> bool" where
  "str_includes s t = sublist t s"

section \<open>Keyword score of the hybrid search\<close>

subsection \<open>The regular expression \<open>new RegExp(`\\b${term}\\b`, 'i')\<close>\<close>

text \<open>
  The source pastes the term into the pattern unescaped, so the term is read as pattern
  syntax. The characters with a meaning in a pattern are ECMAScript's \<open>SyntaxCharacter\<close>s.
\<close>

definition SyntaxCharacter :: "char \<Rightarrow> bool" where
  "SyntaxCharacter c =
     (c \<in> {CHR ''^'', CHR ''$'', CHR 0x5C, CHR ''.'', CHR ''*'', CHR ''+'', CHR ''?'',
            CHR ''('', CHR '')'', CHR ''['', CHR '']'', CHR ''{'', CHR ''}'', CHR ''|''})"

text \<open>
  \<open>Canonicalize\<close> of the pattern algorithm for the flag \<open>i\<close> without \<open>u\<close>: the code unit of
  the upper-case form when that is a single code unit (it is not for U+00DF), which leaves
  Latin-1 for U+00B5 and U+00FF.
\<close>

definition CanonicalizeCode :: "nat \<Rightarrow> nat" where
  "CanonicalizeCode n =
     (if 97 \<le> n \<and> n \<le> 122 then n - 32
      else if n = 181 then 924
      else if 224 \<le> n \<and> n \<le> 254 \<and> n \<noteq> 247 then n - 32
      else if n = 255 then 376
      else n)"

definition Canonicalize :: "char \<Rightarrow> nat" where
  "Canonicalize c = CanonicalizeCode (of_char c)"

definition IsWordChar :: "char \<Rightarrow> bool" where
  "IsWordChar c =
     (let n = (of_char c :: nat) in
      (97 \<le> n \<and> n \<le> 122) \<or> (65 \<le> n \<and> n \<le> 90) \<or> (48 \<le> n \<and> n \<le> 57) \<or> n = 95)"

definition LineTerminator :: "char \<Rightarrow> bool" where
  "LineTerminator c = ((of_char c :: nat) \<in> {10, 13})"

text \<open>The assertion \<open>\b\<close> at index \<open>e\<close> of the input: a word character on exactly one side.\<close>

definition IsWordBoundary :: "string \<Rightarrow> nat \<Rightarrow> bool" where
  "IsWordBoundary s e =
     (let a = (0 < e \<and> e - 1 < length s \<and> IsWordChar (s ! (e - 1)));
          b = (e < length s \<and> IsWordChar (s ! e))
      in a \<noteq> b)"

datatype atom = PatternCharacter char | Dot

fun atomMatches :: "atom \<Rightarrow> char \<Rightarrow> bool" where
  "atomMatches (PatternCharacter p) c = (Canonicalize p = Canonicalize c)"
| "atomMatches Dot c = (\<not> LineTerminator c)"

fun matchAtoms :: "atom list \<Rightarrow> string \<Rightarrow> bool" where
  "matchAtoms [] s = True"
| "matchAtoms (a # as) [] = False"
| "matchAtoms (a # as) (c # cs) = (atomMatches a c \<and> matchAtoms as cs)"

text \<open>
  \<open>/\b a1 ... an \b/i.test(content)\<close> for a sequence of atoms: some index of the content has
  a word boundary, then the atoms one code unit each, then a word boundary.
\<close>

definition testAtoms :: "atom list \<Rightarrow> string \<Rightarrow> bool" where
  "testAtoms as content =
     list_ex (\<lambda>e. IsWordBoundary content e \<and> matchAtoms as (drop e content) \<and>
                  IsWordBoundary content (e + length as))
             [0..<Suc (length content)]"

text \<open>
  What the pattern \<open>\b\<close> term \<open>\b\<close> is, by the syntax characters of the term:
  \<^item> none but \<open>.\<close>: a sequence of atoms, every \<open>.\<close> matching any code unit that is not a line
    terminator and every other character itself up to case;
  \<^item> a \<open>(\<close> and none of \<open>)\<close>, \<open>[\<close> and the backslash: the group is never closed, and the
    constructor throws a SyntaxError;
  \<^item> anything else is left to the host's RegExp, a parameter of the model: the term and
    the content to the outcome of constructing the expression and testing the content.
\<close>

datatype pattern = Atoms "atom list" | Unterminated | Host

definition compileTerm :: "string \<Rightarrow> pattern" where
  "compileTerm term =
     (if list_all (\<lambda>c. c = CHR ''.'' \<or> \<not> SyntaxCharacter c) term
      then Atoms (map (\<lambda>c. if c = CHR ''.'' then Dot else PatternCharacter c) term)
      else if CHR ''('' \<in> set term \<and> CHR '')'' \<notin> set term \<and> CHR ''['' \<notin> set term \<and>
              CHR 0x5C \<notin> set term
      then Unterminated
      else Host)"

type_synonym host_regexp = "string \<Rightarrow> string \<Rightarrow> error + bool"

definition wordBoundaryRegexTest :: "host_regexp \<Rightarrow> string \<Rightarrow> string \<Rightarrow> error + bool" where
  "wordBoundaryRegexTest host term content =
     (case compileTerm term of
        Atoms as \<Rightarrow> Inr (testAtoms as content)
      | Unterminated \<Rightarrow> Inl SyntaxError
      | Host \<Rightarrow> host term content)"

subsection \<open>calculateKeywordScore\<close>

text \<open>The loop over the query terms, with its two counters.\<close>

fun scoreTerms ::
  "host_regexp \<Rightarrow> string \<Rightarrow> string \<Rightarrow> string \<Rightarrow> string list \<Rightarrow> real \<times> real \<Rightarrow> error + real \<times> real"
where
  "scoreTerms host content contentLower filepathLower [] acc = Inr acc"
| "scoreTerms host content contentLower filepathLower (term # terms) (matchCount, exactMatchBonus) =
     (if str_includes contentLower term then
        (case wordBoundaryRegexTest host term content of
           Inl e \<Rightarrow> Inl e
         | Inr hit \<Rightarrow>
             scoreTerms host content contentLower filepathLower terms
               (if str_includes filepathLower term then matchCount + 1 + 1 / 2 else matchCount + 1,
                if hit then exactMatchBonus + 1 / 2 else exactMatchBonus))
      else
        scoreTerms host content contentLower filepathLower terms
          (if str_includes filepathLower term then matchCount + 1 / 2 else matchCount,
           exactMatchBonus))"

definition queryTermsOf :: "string \<Rightarrow> string list" where
  "queryTermsOf query = filter (\<lambda>t. length t > 2) (split_ws (toLowerCase query))"

definition calculateKeywordScore ::
  "host_regexp \<Rightarrow> string \<Rightarrow> string \<Rightarrow> string \<Rightarrow> error + real"
where
  "calculateKeywordScore host query content filepath =
     (let queryTerms = queryTermsOf query in
      if length queryTerms = 0 then Inr 0
      else
        (case scoreTerms host content (toLowerCase content) (toLowerCase filepath) queryTerms (0, 0) of
           Inl e \<Rightarrow> Inl e
         | Inr (matchCount, exactMatchBonus) \<Rightarrow>
             (let baseScore = matchCount / real (length queryTerms);
                  bonusScore = min (exactMatchBonus / real (length queryTerms)) (1 / 2)
              in Inr (min (baseScore + bonusScore) 1))))"

text \<open>
  The score as the specification words it. A whole-word match for the term is an occurrence
  of the term itself, up to case, with a word boundary on each side.
\<close>

definition spec_wholeWordMatch :: "string \<Rightarrow> string \<Rightarrow> bool" where
  "spec_wholeWordMatch term content =
     list_ex (\<lambda>e. e + length term \<le> length content \<and>
                  toLowerCase (take (length term) (drop e content)) = toLowerCase term \<and>
                  IsWordBoundary content e \<and> IsWordBoundary content (e + length term))
             [0..<Suc (length content)]"

definition spec_matchCount :: "string list \<Rightarrow> string \<Rightarrow> string \<Rightarrow> real" where
  "spec_matchCount terms content filepath =
     (\<Sum>t\<leftarrow>terms. (if str_includes (toLowerCase content) t then 1 else 0) +
                  (if str_includes (toLowerCase filepath) t then 1 / 2 else 0))"

definition spec_exactBonus :: "string list \<Rightarrow> string \<Rightarrow> real" where
  "spec_exactBonus terms content =
     (\<Sum>t\<leftarrow>terms. if str_includes (toLowerCase content) t \<and> spec_wholeWordMatch t content
                  then 1 / 2 else 0)"

definition spec_keywordScore :: "string \<Rightarrow> string \<Rightarrow> string \<Rightarrow> real" where
  "spec_keywordScore query content filepath =
     (let terms = queryTermsOf query; termCount = real (length terms)
      in min 1 (spec_matchCount terms content filepath / termCount +
                min (1 / 2) (spec_exactBonus terms content / termCount)))"

subsection \<open>Combined score\<close>

definition calculateCombinedScore :: "real \<Rightarrow> real \<Rightarrow> real \<Rightarrow> real \<Rightarrow> real" where
  "calculateCombinedScore semanticScore keywordScore semanticWeight keywordWeight =
     semanticWeight * semanticScore + keywordWeight * keywordScore"

section \<open>Batch embedding with the Ollama backend\<close>














section \<open>Arguments of the search_similar tool\<close>

text \<open>A value of type \<open>unknown\<close>, as far as the parser tells values apart.\<close>

datatype unknown =
    JSUndefined
  | JSNull
  | JSBoolean bool
  | JSNumber real
  | JSString string
  | JSObject

text \<open>
  Modelled from the spec: \<open>isString\<close> and \<open>isNumber\<close> of utils/type-guards.ts, which is
  missing; by their names and their use as type guards they test \<open>typeof\<close>.
\<close>

definition isString :: "unknown \<Rightarrow> bool" where
  "isString v = (case v of JSString s \<Rightarrow> True | _ \<Rightarrow> False)"

definition isNumber :: "unknown \<Rightarrow> bool" where
  "isNumber v = (case v of JSNumber n \<Rightarrow> True | _ \<Rightarrow> False)"

text \<open>\<open>args?.key\<close> for \<open>args: Record<string, unknown> | undefined\<close>.\<close>

definition getArg :: "(string \<rightharpoonup> unknown) option \<Rightarrow> string \<Rightarrow> unknown" where
  "getArg args key =
     (case args of None \<Rightarrow> JSUndefined
      | Some m \<Rightarrow> (case m key of None \<Rightarrow> JSUndefined | Some v \<Rightarrow> v))"

definition stringArg :: "(string \<rightharpoonup> unknown) option \<Rightarrow> string \<Rightarrow> string option" where
  "stringArg args key = (case getArg args key of JSString s \<Rightarrow> Some s | _ \<Rightarrow> None)"

definition numberArg :: "(string \<rightharpoonup> unknown) option \<Rightarrow> string \<Rightarrow> real option" where
  "numberArg args key = (case getArg args key of JSNumber n \<Rightarrow> Some n | _ \<Rightarrow> None)"

text \<open>\<open>!s\<close> for \<open>s: string | undefined\<close>: true of \<open>undefined\<close> and of the empty string.\<close>

definition falsy :: "string option \<Rightarrow> bool" where
  "falsy s = (s = None \<or> s = Some [])"

record SearchSimilarArgs =
  code :: "string option"
  filepath :: "string option"
  startLine :: "real option"
  endLine :: "real option"
  limit :: real
  threshold :: "real option"
  excludeSelf :: bool

definition parseSearchSimilarArgs :: "(string \<rightharpoonup> unknown) option \<Rightarrow> error + SearchSimilarArgs" where
  "parseSearchSimilarArgs args =
     (let code' = (if isString (getArg args ''code'') then stringArg args ''code'' else None);
          filepath' = (if isString (getArg args ''filepath'') then stringArg args ''filepath'' else None)
      in if falsy code' \<and> falsy filepath'
         then Inl (LanceContextError ''Either code or filepath must be provided'' ''validation''
                     [(''tool'', ''search_similar'')])
         else Inr \<lparr> code = code',
                    filepath = filepath',
                    startLine = (if isNumber (getArg args ''startLine'') then numberArg args ''startLine'' else None),
                    endLine = (if isNumber (getArg args ''endLine'') then numberArg args ''endLine'' else None),
                    limit = (case numberArg args ''limit'' of Some n \<Rightarrow> n | None \<Rightarrow> 10),
                    threshold = (if isNumber (getArg args ''threshold'') then numberArg args ''threshold'' else None),
                    excludeSelf = (getArg args ''excludeSelf'' \<noteq> JSBoolean False) \<rparr>)"

section \<open>Concept clustering\<close>

record ChunkForClustering =
  chunk_id :: string
  chunk_content :: string
  chunk_filepath :: string
  embedding :: "real list"
  symbolName :: "string option"
  symbolType :: "string option"

text \<open>An entry of a centroid is a number or NaN (\<open>None\<close>).\<close>

record ConceptCluster =
  cluster_id :: nat
  label :: string
  cluster_size :: nat
  representativeChunks :: "string list"
  centroid :: "real option list"
  cluster_keywords :: "string list"

text \<open>
  A \<open>Map\<close> is the list of its entries in insertion order: \<open>set\<close> on a key that is present
  replaces the value in place, on a new key it appends (\<^const>\<open>AList.update\<close>), and \<open>get\<close> is
  \<^const>\<open>map_of\<close>.
\<close>

record ClusteringResult =
  clusterCount :: nat
  clusters :: "ConceptCluster list"
  assignments :: "(string \<times> nat) list"

record ClusteringOptions =
  numClusters :: "real option"
  maxIterations :: "real option"
  convergenceThreshold :: "real option"
  numRepresentatives :: "real option"

subsection \<open>Vectors\<close>

definition euclideanDistance :: "real list \<Rightarrow> real list \<Rightarrow> error + real" where
  "euclideanDistance a b =
     (if length a \<noteq> length b then Inl VectorsMustHaveSameLength
      else Inr (sqrt (\<Sum>(x, y)\<leftarrow>zip a b. (x - y) * (x - y))))"

text \<open>
  The centroid has the dimensions of the first vector. Entry \<open>i\<close> sums \<open>vec[i]\<close> over the
  vectors; for a vector too short that is \<open>undefined\<close>, and the entry is NaN.
\<close>

definition calculateCentroid :: "real list list \<Rightarrow> error + real option list" where
  "calculateCentroid vectors =
     (case vectors of
        [] \<Rightarrow> Inl CannotCalculateCentroidOfEmptySet
      | v0 # _ \<Rightarrow>
          Inr (map (\<lambda>i. if list_all (\<lambda>vec. i < length vec) vectors
                        then Some ((\<Sum>vec\<leftarrow>vectors. vec ! i) / real (length vectors))
                        else None)
                   [0..<length v0]))"

text \<open>
  \<open>[...embeddings[idx]]\<close>: the copy of a vector; an index outside the array reads
  \<open>undefined\<close>, and spreading that throws a TypeError.
\<close>

definition copyEmbedding :: "real list list \<Rightarrow> int \<Rightarrow> error + real list" where
  "copyEmbedding embeddings idx =
     (if 0 \<le> idx \<and> nat idx < length embeddings then Inr (embeddings ! nat idx) else Inl TypeError)"

subsection \<open>Seeding (k-means++)\<close>

text \<open>
  \<open>Math.random\<close> is a sequence \<open>rnd\<close> of numbers, read at a position that every call moves
  on by one; the functions that draw return the new position.

  In the seeding the list of centroids starts with the first pick and only grows, so it is
  kept as its first element and the rest. The search for the nearest centroid starts from
  \<open>minDist = Infinity\<close>, which the distance to the first centroid always replaces.
\<close>

fun minDistLoop :: "real list \<Rightarrow> real list list \<Rightarrow> real \<Rightarrow> error + real" where
  "minDistLoop e [] minDist = Inr minDist"
| "minDistLoop e (centroid' # cs) minDist =
     (case euclideanDistance e centroid' of
        Inl err \<Rightarrow> Inl err
      | Inr dist' \<Rightarrow> minDistLoop e cs (if dist' < minDist then dist' else minDist))"

definition minDistance :: "real list \<Rightarrow> real list \<Rightarrow> real list list \<Rightarrow> error + real" where
  "minDistance e c0 rest =
     (case euclideanDistance e c0 of Inl err \<Rightarrow> Inl err | Inr dist' \<Rightarrow> minDistLoop e rest dist')"

fun squaredDistances :: "real list list \<Rightarrow> real list \<Rightarrow> real list list \<Rightarrow> error + real list" where
  "squaredDistances [] c0 rest = Inr []"
| "squaredDistances (e # es) c0 rest =
     (case minDistance e c0 rest of
        Inl err \<Rightarrow> Inl err
      | Inr minDist \<Rightarrow>
          (case squaredDistances es c0 rest of
             Inl err \<Rightarrow> Inl err
           | Inr distances \<Rightarrow> Inr (minDist * minDist # distances)))"

text \<open>The weighted pick: the first index at which the running remainder is not positive.\<close>

fun weightedSelect :: "real list \<Rightarrow> nat \<Rightarrow> real \<Rightarrow> nat" where
  "weightedSelect [] i rand = 0"
| "weightedSelect (d # ds) i rand =
     (let rand' = rand - d in if rand' \<le> 0 then i else weightedSelect ds (Suc i) rand')"

fun seedLoop ::
  "(nat \<Rightarrow> real) \<Rightarrow> real list list \<Rightarrow> nat \<Rightarrow> real list \<Rightarrow> real list list \<Rightarrow> nat \<Rightarrow> error + real list list \<times> nat"
where
  "seedLoop rnd embeddings 0 c0 rest s = Inr (c0 # rest, s)"
| "seedLoop rnd embeddings (Suc m) c0 rest s =
     (case squaredDistances embeddings c0 rest of
        Inl err \<Rightarrow> Inl err
      | Inr distances \<Rightarrow>
          (let totalDist = sum_list distances;
               selectedIdx = weightedSelect distances 0 (rnd s * totalDist)
           in case copyEmbedding embeddings (int selectedIdx) of
                Inl err \<Rightarrow> Inl err
              | Inr v \<Rightarrow> seedLoop rnd embeddings m c0 (rest @ [v]) (Suc s)))"

text \<open>
  The loop \<open>for (c = 1; c < k; c++)\<close> runs once for every integer from 1 below \<open>k\<close>.
\<close>

definition initializeCentroidsKMeansPP ::
  "(nat \<Rightarrow> real) \<Rightarrow> nat \<Rightarrow> real list list \<Rightarrow> real \<Rightarrow> error + real list list \<times> nat"
where
  "initializeCentroidsKMeansPP rnd s embeddings k =
     (let n = length embeddings;
          firstIdx = \<lfloor>rnd s * real n\<rfloor>
      in case copyEmbedding embeddings firstIdx of
           Inl err \<Rightarrow> Inl err
         | Inr c0 \<Rightarrow> seedLoop rnd embeddings (nat \<lceil>k\<rceil> - 1) c0 [] (Suc s))"

subsection \<open>Keywords and labels\<close>

text \<open>\<open>s.split(sep)\<close> for a separator of one character, and \<open>parts.join(sep)\<close>.\<close>

fun splitOn :: "char \<Rightarrow> string \<Rightarrow> string \<Rightarrow> string list" where
  "splitOn sep [] cur = [rev cur]"
| "splitOn sep (c # cs) cur =
     (if c = sep then rev cur # splitOn sep cs [] else splitOn sep cs (c # cur))"

fun join :: "string \<Rightarrow> string list \<Rightarrow> string" where
  "join sep [] = []"
| "join sep [p] = p"
| "join sep (p # q # ps) = p @ sep @ join sep (q # ps)"

text \<open>\<open>m.set(key, (m.get(key) || 0) + by)\<close> on a map of counts.\<close>

definition increment :: "(string \<times> nat) list \<Rightarrow> string \<Rightarrow> nat \<Rightarrow> (string \<times> nat) list" where
  "increment m key by' = AList.update key ((case map_of m key of None \<Rightarrow> 0 | Some v \<Rightarrow> v) + by') m"

definition isUpperAZ :: "char \<Rightarrow> bool" where
  "isUpperAZ c = (65 \<le> (of_char c :: nat) \<and> (of_char c :: nat) \<le> 90)"

definition isLowerAZ :: "char \<Rightarrow> bool" where
  "isLowerAZ c = (97 \<le> (of_char c :: nat) \<and> (of_char c :: nat) \<le> 122)"

definition isAlnum :: "char \<Rightarrow> bool" where
  "isAlnum c = (isUpperAZ c \<or> isLowerAZ c \<or> (48 \<le> (of_char c :: nat) \<and> (of_char c :: nat) \<le> 57))"

text \<open>
  \<open>content.match(/[a-zA-Z][a-zA-Z0-9_]*[a-zA-Z0-9]/g) || []\<close>: from a letter the star takes
  the whole run of letters, digits and underscores and gives back the trailing underscores;
  at least one character must remain after the letter. The search goes on behind a match,
  and at the next character where there is none.
\<close>

function identifierWords :: "string \<Rightarrow> string list" where
  "identifierWords [] = []"
| "identifierWords (c # cs) =
     (if isUpperAZ c \<or> isLowerAZ c then
        (let run = takeWhile (\<lambda>x. isAlnum x \<or> x = CHR ''_'') cs;
             body = rev (dropWhile (\<lambda>x. \<not> isAlnum x) (rev run))
         in if body \<noteq> [] then (c # body) # identifierWords (drop (length body) cs)
            else identifierWords cs)
      else identifierWords cs)"
  by pat_completeness auto
termination
  by (relation "measure length") auto

text \<open>\<open>symbolName.match(/[A-Z]?[a-z]+/g) || []\<close>.\<close>

function symbolWords :: "string \<Rightarrow> string list" where
  "symbolWords [] = []"
| "symbolWords (c # cs) =
     (if (isUpperAZ c \<and> cs \<noteq> [] \<and> isLowerAZ (hd cs)) \<or> isLowerAZ c
      then (c # takeWhile isLowerAZ cs) # symbolWords (dropWhile isLowerAZ cs)
      else symbolWords cs)"
  by pat_completeness auto
termination
  by (relation "measure length") (auto simp: le_imp_less_Suc length_dropWhile_le)

definition stopWords :: "string list" where
  "stopWords =
     [''function'', ''const'', ''let'', ''var'', ''return'', ''if'', ''else'', ''for'', ''while'',
      ''import'', ''export'', ''from'', ''class'', ''interface'', ''type'', ''async'', ''await'',
      ''new'', ''this'', ''true'', ''false'', ''null'', ''undefined'', ''public'', ''private'',
      ''static'', ''void'', ''string'', ''number'', ''boolean'', ''any'', ''def'', ''self'',
      ''none'', ''pass'', ''try'', ''except'', ''catch'', ''throw'', ''throws'', ''extends'',
      ''implements'', ''default'', ''case'', ''break'', ''continue'']"

fun countWords :: "string list \<Rightarrow> nat \<Rightarrow> (string \<times> nat) list \<Rightarrow> (string \<times> nat) list" where
  "countWords [] weight wordFreq = wordFreq"
| "countWords (word # ws) weight wordFreq =
     (let lower = toLowerCase word
      in countWords ws weight
           (if length lower \<ge> 4 \<and> lower \<notin> set stopWords then increment wordFreq lower weight
            else wordFreq))"

definition countChunk :: "ChunkForClustering \<Rightarrow> (string \<times> nat) list \<Rightarrow> (string \<times> nat) list" where
  "countChunk chunk wordFreq =
     (let wordFreq' = countWords (identifierWords (chunk_content chunk)) 1 wordFreq
      in case symbolName chunk of
           None \<Rightarrow> wordFreq'
         | Some nm \<Rightarrow> if nm = [] then wordFreq' else countWords (symbolWords nm) 3 wordFreq')"

definition extractKeywords :: "ChunkForClustering list \<Rightarrow> string list" where
  "extractKeywords chunks =
     map fst (take 10 (sort_key (\<lambda>(word, n). - int n) (fold countChunk chunks [])))"

definition tally :: "ChunkForClustering \<Rightarrow> (string \<times> nat) list \<times> (string \<times> nat) list \<Rightarrow> (string \<times> nat) list \<times> (string \<times> nat) list" where
  "tally chunk maps =
     (let symbolTypes = fst maps; dirPaths = snd maps;
          parts = splitOn CHR ''/'' (chunk_filepath chunk) []
      in ((case symbolType chunk of
             None \<Rightarrow> symbolTypes
           | Some t \<Rightarrow> if t = [] then symbolTypes else increment symbolTypes t 1),
          (if length parts > 1 then increment dirPaths (join ''/'' (butlast parts)) 1 else dirPaths)))"

text \<open>The entry with the greatest count, the first of them in insertion order.\<close>

fun dominant :: "(string \<times> nat) list \<Rightarrow> string \<times> nat \<Rightarrow> string" where
  "dominant [] best = fst best"
| "dominant ((key, n) # entries) best =
     dominant entries (if n > snd best then (key, n) else best)"

definition generateClusterLabel :: "ChunkForClustering list \<Rightarrow> ChunkForClustering list \<Rightarrow> string" where
  "generateClusterLabel allChunks representatives =
     (let maps = fold tally allChunks ([], []);
          dominantType = dominant (fst maps) ([], 0);
          dominantDir = dominant (snd maps) ([], 0);
          parts = (if dominantDir \<noteq> [] then [last (splitOn CHR ''/'' dominantDir [])] else []) @
                  (if dominantType \<noteq> [] then [dominantType @ ''s''] else [])
      in if length parts = 0
         then (let kws = extractKeywords representatives
               in if length kws > 0 then join '' & '' (take 2 kws) else ''Code'')
         else join '' '' parts)"

text \<open>\<open>xs.slice(0, e)\<close>: \<open>e\<close> is truncated to an integer, and counts from the end when negative.\<close>

definition slice0 :: "'a list \<Rightarrow> real \<Rightarrow> 'a list" where
  "slice0 xs e =
     (let relativeEnd = (if e < 0 then \<lceil>e\<rceil> else \<lfloor>e\<rfloor>);
          final = (if relativeEnd < 0 then max (int (length xs) + relativeEnd) 0
                   else min relativeEnd (int (length xs)))
      in take (nat final) xs)"

subsection \<open>Lloyd iteration\<close>

text \<open>
  The assignment step for one point: \<open>for (c = 0; c < k; c++)\<close> over the indices below \<open>k\<close>,
  from \<open>minDist = Infinity\<close> (\<open>None\<close>) and \<open>nearestCluster = 0\<close>. Reading \<open>centroids[c]\<close>
  outside the array gives \<open>undefined\<close>, whose \<open>length\<close> throws a TypeError.
\<close>

fun nearestLoop :: "real list \<Rightarrow> real list list \<Rightarrow> nat list \<Rightarrow> real option \<times> nat \<Rightarrow> error + nat" where
  "nearestLoop e centroids [] (minDist, nearestCluster) = Inr nearestCluster"
| "nearestLoop e centroids (c # cs) (minDist, nearestCluster) =
     (if c < length centroids then
        (case euclideanDistance e (centroids ! c) of
           Inl err \<Rightarrow> Inl err
         | Inr dist' \<Rightarrow>
             if (case minDist of None \<Rightarrow> True | Some m \<Rightarrow> dist' < m)
             then nearestLoop e centroids cs (Some dist', c)
             else nearestLoop e centroids cs (minDist, nearestCluster))
      else Inl TypeError)"

fun assignStep :: "real list list \<Rightarrow> real list list \<Rightarrow> nat \<Rightarrow> error + nat list" where
  "assignStep [] centroids kc = Inr []"
| "assignStep (e # es) centroids kc =
     (case nearestLoop e centroids [0..<kc] (None, 0) of
        Inl err \<Rightarrow> Inl err
      | Inr nearestCluster \<Rightarrow>
          (case assignStep es centroids kc of
             Inl err \<Rightarrow> Inl err
           | Inr rest \<Rightarrow> Inr (nearestCluster # rest)))"

text \<open>
  The update step, cluster by cluster, with \<open>newCentroids\<close>, \<open>maxShift\<close> and the position in
  the random sequence. \<^const>\<open>NaNInIteration\<close> is no exception of the source: it stands where
  a centroid with a NaN entry would enter the iteration, and \<open>kMeansClustering\<close> never
  returns it (lemma \<open>kMeansClustering_no_NaN\<close>), because the seeding has thrown before if two
  embeddings differ in length.
\<close>

fun updateLoop ::
  "(nat \<Rightarrow> real) \<Rightarrow> real list list \<Rightarrow> nat list \<Rightarrow> real list list \<Rightarrow> nat list \<Rightarrow>
   real list list \<times> real \<times> nat \<Rightarrow> error + real list list \<times> real \<times> nat"
where
  "updateLoop rnd embeddings clusterAssignments centroids [] acc = Inr acc"
| "updateLoop rnd embeddings clusterAssignments centroids (c # cs) (newCentroids, maxShift, s) =
     (let clusterVectors = map fst (filter (\<lambda>(e, a). a = c) (zip embeddings clusterAssignments))
      in if length clusterVectors > 0 then
           (case calculateCentroid clusterVectors of
              Inl err \<Rightarrow> Inl err
            | Inr entries \<Rightarrow>
                (case those entries of
                   None \<Rightarrow> Inl NaNInIteration
                 | Some newCentroid \<Rightarrow>
                     if c < length centroids then
                       (case euclideanDistance (centroids ! c) newCentroid of
                          Inl err \<Rightarrow> Inl err
                        | Inr shift \<Rightarrow>
                            updateLoop rnd embeddings clusterAssignments centroids cs
                              (newCentroids @ [newCentroid], max maxShift shift, s))
                     else Inl TypeError))
         else
           (case copyEmbedding embeddings \<lfloor>rnd s * real (length embeddings)\<rfloor> of
              Inl err \<Rightarrow> Inl err
            | Inr v \<Rightarrow>
                updateLoop rnd embeddings clusterAssignments centroids cs
                  (newCentroids @ [v], maxShift, Suc s)))"

text \<open>
  The iterations, at most as many as given: each assigns, stops when no assignment
  changed, updates, and stops when no centroid moved by the threshold or more.
\<close>

fun lloyd ::
  "(nat \<Rightarrow> real) \<Rightarrow> real list list \<Rightarrow> nat \<Rightarrow> real \<Rightarrow> nat \<Rightarrow> real list list \<Rightarrow> nat list \<Rightarrow> nat \<Rightarrow>
   error + real list list \<times> nat list"
where
  "lloyd rnd embeddings kc convergenceThreshold' 0 centroids clusterAssignments s =
     Inr (centroids, clusterAssignments)"
| "lloyd rnd embeddings kc convergenceThreshold' (Suc iterations) centroids clusterAssignments s =
     (case assignStep embeddings centroids kc of
        Inl err \<Rightarrow> Inl err
      | Inr newAssignments \<Rightarrow>
          if newAssignments = clusterAssignments then Inr (centroids, newAssignments)
          else
            (case updateLoop rnd embeddings newAssignments centroids [0..<kc] ([], 0, s) of
               Inl err \<Rightarrow> Inl err
             | Inr (newCentroids, maxShift, s') \<Rightarrow>
                 if maxShift < convergenceThreshold' then Inr (newCentroids, newAssignments)
                 else lloyd rnd embeddings kc convergenceThreshold' iterations newCentroids
                        newAssignments s'))"

subsection \<open>Building the result\<close>

text \<open>
  \<open>[...chunksInCluster].sort(...)\<close> by the distance to the centroid. The sort is stable;
  it calls the comparison, which computes the two distances and can throw, only when there
  are two elements or more, and then on every element.
\<close>

fun distancesTo :: "real list \<Rightarrow> ChunkForClustering list \<Rightarrow> error + real list" where
  "distancesTo centroid' [] = Inr []"
| "distancesTo centroid' (chunk # chunks) =
     (case euclideanDistance (embedding chunk) centroid' of
        Inl err \<Rightarrow> Inl err
      | Inr d \<Rightarrow> (case distancesTo centroid' chunks of Inl err \<Rightarrow> Inl err | Inr ds \<Rightarrow> Inr (d # ds)))"

definition sortedByDistance ::
  "real list list \<Rightarrow> nat \<Rightarrow> ChunkForClustering list \<Rightarrow> error + ChunkForClustering list"
where
  "sortedByDistance centroids c chunksInCluster =
     (if length chunksInCluster < 2 then Inr chunksInCluster
      else if c < length centroids then
        (case distancesTo (centroids ! c) chunksInCluster of
           Inl err \<Rightarrow> Inl err
         | Inr ds \<Rightarrow> Inr (map snd (sort_key fst (zip ds chunksInCluster))))
      else Inl TypeError)"

text \<open>\<open>clusterChunks[c]\<close>: the chunks assigned to cluster \<open>c\<close>, in the order of the chunks.\<close>

definition clusterChunksOf :: "ChunkForClustering list \<Rightarrow> nat list \<Rightarrow> nat \<Rightarrow> ChunkForClustering list" where
  "clusterChunksOf chunks clusterAssignments c =
     map fst (filter (\<lambda>(chunk, a). a = c) (zip chunks clusterAssignments))"

text \<open>
  The loop that creates the cluster objects; an index without chunks is skipped. The list of
  centroids has an entry for every index below \<open>k\<close> (lemma \<open>lloyd_invariant\<close>).
\<close>

fun clustersLoop ::
  "ChunkForClustering list \<Rightarrow> nat list \<Rightarrow> real list list \<Rightarrow> real \<Rightarrow> nat list \<Rightarrow> ConceptCluster list \<Rightarrow>
   error + ConceptCluster list"
where
  "clustersLoop chunks clusterAssignments centroids numRepresentatives' [] acc = Inr acc"
| "clustersLoop chunks clusterAssignments centroids numRepresentatives' (c # cs) acc =
     (let chunksInCluster = clusterChunksOf chunks clusterAssignments c
      in if length chunksInCluster = 0
         then clustersLoop chunks clusterAssignments centroids numRepresentatives' cs acc
         else
           (case sortedByDistance centroids c chunksInCluster of
              Inl err \<Rightarrow> Inl err
            | Inr sortedChunks \<Rightarrow>
                (let representatives = slice0 sortedChunks numRepresentatives'
                 in clustersLoop chunks clusterAssignments centroids numRepresentatives' cs
                      (acc @ [\<lparr> cluster_id = c,
                                label = generateClusterLabel chunksInCluster representatives,
                                cluster_size = length chunksInCluster,
                                representativeChunks = map chunk_id representatives,
                                centroid = map Some (centroids ! c),
                                cluster_keywords = extractKeywords chunksInCluster \<rparr>]))))"

text \<open>Sorting by size, largest first, renumbering, and the assignments under the new ids.\<close>

definition sortBySize :: "ConceptCluster list \<Rightarrow> ConceptCluster list" where
  "sortBySize cs = sort_key (\<lambda>cluster. - int (cluster_size cluster)) cs"

definition idMappingOf :: "ConceptCluster list \<Rightarrow> (nat \<times> nat) list" where
  "idMappingOf sortedClusters =
     fold (\<lambda>(cluster, newId) m. AList.update (cluster_id cluster) newId m)
          (zip sortedClusters [0..<length sortedClusters]) []"

definition renumber :: "ConceptCluster list \<Rightarrow> ConceptCluster list" where
  "renumber sortedClusters =
     map (\<lambda>(cluster, newId). cluster\<lparr>cluster_id := newId\<rparr>) (zip sortedClusters [0..<length sortedClusters])"

definition updateAssignments :: "(nat \<times> nat) list \<Rightarrow> (string \<times> nat) list \<Rightarrow> (string \<times> nat) list" where
  "updateAssignments idMapping asg =
     map (\<lambda>(chunkId, oldClusterId).
            case map_of idMapping oldClusterId of
              Some newClusterId \<Rightarrow> (chunkId, newClusterId)
            | None \<Rightarrow> (chunkId, oldClusterId))
         asg"

definition assignmentsOf :: "ChunkForClustering list \<Rightarrow> nat list \<Rightarrow> (string \<times> nat) list" where
  "assignmentsOf chunks clusterAssignments =
     fold (\<lambda>(chunk, a) m. AList.update (chunk_id chunk) a m) (zip chunks clusterAssignments) []"

subsection \<open>kMeansClustering\<close>

definition defaultNumClusters :: "nat \<Rightarrow> real" where
  "defaultNumClusters n = max 3 (min 20 (of_int \<lceil>sqrt (real n / 2)\<rceil>))"

text \<open>\<open>k\<close>, the number of clusters asked for, capped at the number of chunks.\<close>

definition targetK :: "ChunkForClustering list \<Rightarrow> ClusteringOptions \<Rightarrow> real" where
  "targetK chunks options =
     min (case numClusters options of None \<Rightarrow> defaultNumClusters (length chunks) | Some v \<Rightarrow> v)
         (real (length chunks))"

definition singleCluster :: "ChunkForClustering list \<Rightarrow> real \<Rightarrow> error + ClusteringResult" where
  "singleCluster chunks numRepresentatives' =
     (case calculateCentroid (map embedding chunks) of
        Inl err \<Rightarrow> Inl err
      | Inr centroid' \<Rightarrow>
          Inr \<lparr> clusterCount = 1,
                clusters =
                  [\<lparr> cluster_id = 0,
                     label = generateClusterLabel chunks (slice0 chunks numRepresentatives'),
                     cluster_size = length chunks,
                     representativeChunks = map chunk_id (slice0 chunks numRepresentatives'),
                     centroid = centroid',
                     cluster_keywords = extractKeywords chunks \<rparr>],
                assignments = fold (\<lambda>chunk m. AList.update (chunk_id chunk) 0 m) chunks [] \<rparr>)"

text \<open>
  After the iterations: \<open>Array(k)\<close> throws a RangeError unless \<open>k\<close> is an integer, and
  \<open>clusterChunks[a].push\<close> throws a TypeError for an assignment \<open>a\<close> that is no index of it.
\<close>

definition buildResult ::
  "ChunkForClustering list \<Rightarrow> real \<Rightarrow> real \<Rightarrow> real list list \<Rightarrow> nat list \<Rightarrow> error + ClusteringResult"
where
  "buildResult chunks k numRepresentatives' centroids clusterAssignments =
     (if k \<noteq> of_int \<lfloor>k\<rfloor> then Inl RangeError
      else if \<not> list_all (\<lambda>a. a < nat \<lceil>k\<rceil>) clusterAssignments then Inl TypeError
      else
        (case clustersLoop chunks clusterAssignments centroids numRepresentatives' [0..<nat \<lceil>k\<rceil>] [] of
           Inl err \<Rightarrow> Inl err
         | Inr created \<Rightarrow>
             (let sortedClusters = sortBySize created;
                  idMapping = idMappingOf sortedClusters;
                  renumbered = renumber sortedClusters
              in Inr \<lparr> clusterCount = length renumbered,
                       clusters = renumbered,
                       assignments =
                         updateAssignments idMapping (assignmentsOf chunks clusterAssignments) \<rparr>)))"

definition kMeansClustering ::
  "(nat \<Rightarrow> real) \<Rightarrow> ChunkForClustering list \<Rightarrow> ClusteringOptions \<Rightarrow> error + ClusteringResult"
where
  "kMeansClustering rnd chunks options =
     (let maxIterations' = (case maxIterations options of None \<Rightarrow> 100 | Some v \<Rightarrow> v);
          convergenceThreshold' = (case convergenceThreshold options of None \<Rightarrow> 1 / 1000 | Some v \<Rightarrow> v);
          numRepresentatives' = (case numRepresentatives options of None \<Rightarrow> 3 | Some v \<Rightarrow> v)
      in if length chunks = 0
         then Inr \<lparr> clusterCount = 0, clusters = [], assignments = [] \<rparr>
         else
           (let k = targetK chunks options
            in if k \<le> 1 then singleCluster chunks numRepresentatives'
               else
                 (let embeddings = map embedding chunks
                  in case initializeCentroidsKMeansPP rnd 0 embeddings k of
                       Inl err \<Rightarrow> Inl err
                     | Inr (centroids, s) \<Rightarrow>
                         (case lloyd rnd embeddings (nat \<lceil>k\<rceil>) convergenceThreshold'
                                 (nat \<lceil>maxIterations'\<rceil>) centroids
                                 (replicate (length chunks) 0) s of
                            Inl err \<Rightarrow> Inl err
                          | Inr (centroids', clusterAssignments) \<Rightarrow>
                              buildResult chunks k numRepresentatives' centroids' clusterAssignments))))"

text \<open>The chunks whose id the map of assignments takes to a given cluster id.\<close>

definition assignedTo :: "ChunkForClustering list \<Rightarrow> (string \<times> nat) list \<Rightarrow> nat \<Rightarrow> ChunkForClustering list" where
  "assignedTo chunks asg clusterId =
     filter (\<lambda>chunk. map_of asg (chunk_id chunk) = Some clusterId) chunks"

subsection \<open>calculateSilhouetteScore\<close>

text \<open>The two inner loops over the chunks: a sum of distances and a count.\<close>

fun intraLoop ::
  "(string \<times> nat) list \<Rightarrow> ChunkForClustering \<Rightarrow> nat \<Rightarrow> ChunkForClustering list \<Rightarrow> real \<times> nat \<Rightarrow> error + real \<times> nat"
where
  "intraLoop asg chunk clusterId [] acc = Inr acc"
| "intraLoop asg chunk clusterId (other # others) (intraClusterDist, intraCount) =
     (if chunk_id other = chunk_id chunk then intraLoop asg chunk clusterId others (intraClusterDist, intraCount)
      else if map_of asg (chunk_id other) = Some clusterId then
        (case euclideanDistance (embedding chunk) (embedding other) of
           Inl err \<Rightarrow> Inl err
         | Inr d \<Rightarrow> intraLoop asg chunk clusterId others (intraClusterDist + d, Suc intraCount))
      else intraLoop asg chunk clusterId others (intraClusterDist, intraCount))"

fun interLoop ::
  "(string \<times> nat) list \<Rightarrow> ChunkForClustering \<Rightarrow> nat \<Rightarrow> ChunkForClustering list \<Rightarrow> real \<times> nat \<Rightarrow> error + real \<times> nat"
where
  "interLoop asg chunk otherId [] acc = Inr acc"
| "interLoop asg chunk otherId (other # others) (interDist, interCount) =
     (if map_of asg (chunk_id other) = Some otherId then
        (case euclideanDistance (embedding chunk) (embedding other) of
           Inl err \<Rightarrow> Inl err
         | Inr d \<Rightarrow> interLoop asg chunk otherId others (interDist + d, Suc interCount))
      else interLoop asg chunk otherId others (interDist, interCount))"

text \<open>The loop over the other clusters, from \<open>minInterClusterDist = Infinity\<close> (\<open>None\<close>).\<close>

fun otherClustersLoop ::
  "ChunkForClustering list \<Rightarrow> (string \<times> nat) list \<Rightarrow> ChunkForClustering \<Rightarrow> nat \<Rightarrow> ConceptCluster list \<Rightarrow>
   real option \<Rightarrow> error + real option"
where
  "otherClustersLoop chunks asg chunk clusterId [] minInterClusterDist = Inr minInterClusterDist"
| "otherClustersLoop chunks asg chunk clusterId (otherCluster # cs) minInterClusterDist =
     (if cluster_id otherCluster = clusterId
      then otherClustersLoop chunks asg chunk clusterId cs minInterClusterDist
      else
        (case interLoop asg chunk (cluster_id otherCluster) chunks (0, 0) of
           Inl err \<Rightarrow> Inl err
         | Inr (interDist, interCount) \<Rightarrow>
             otherClustersLoop chunks asg chunk clusterId cs
               (if interCount > 0 \<and>
                   (case minInterClusterDist of None \<Rightarrow> True
                    | Some m \<Rightarrow> interDist / real interCount < m)
                then Some (interDist / real interCount) else minInterClusterDist)))"

fun silhouetteLoop ::
  "ChunkForClustering list \<Rightarrow> (string \<times> nat) list \<Rightarrow> ConceptCluster list \<Rightarrow> ChunkForClustering list \<Rightarrow>
   real \<times> nat \<Rightarrow> error + real \<times> nat"
where
  "silhouetteLoop chunks asg cs [] acc = Inr acc"
| "silhouetteLoop chunks asg cs (chunk # rest) (totalScore, count) =
     (case map_of asg (chunk_id chunk) of
        None \<Rightarrow> silhouetteLoop chunks asg cs rest (totalScore, count)
      | Some clusterId \<Rightarrow>
          (case intraLoop asg chunk clusterId chunks (0, 0) of
             Inl err \<Rightarrow> Inl err
           | Inr (intraClusterDist, intraCount) \<Rightarrow>
               (case otherClustersLoop chunks asg chunk clusterId cs None of
                  Inl err \<Rightarrow> Inl err
                | Inr minInterClusterDist \<Rightarrow>
                    (let a = (if intraCount > 0 then intraClusterDist / real intraCount else 0);
                         b = (case minInterClusterDist of None \<Rightarrow> 0 | Some m \<Rightarrow> m);
                         maxAB = max a b;
                         sc = (if maxAB > 0 then (b - a) / maxAB else 0)
                     in silhouetteLoop chunks asg cs rest (totalScore + sc, Suc count)))))"

definition calculateSilhouetteScore ::
  "ChunkForClustering list \<Rightarrow> (string \<times> nat) list \<Rightarrow> ConceptCluster list \<Rightarrow> error + real"
where
  "calculateSilhouetteScore chunks asg cs =
     (if length cs \<le> 1 \<or> length chunks \<le> 1 then Inr 0
      else
        (case silhouetteLoop chunks asg cs chunks (0, 0) of
           Inl err \<Rightarrow> Inl err
         | Inr (totalScore, count) \<Rightarrow> Inr (if count > 0 then totalScore / real count else 0)))"

text \<open>
  The default in the words of the specification: the ceiling of \<open>sqrt(chunkCount/2)\<close> clamped
  into 3..20, and capped at the number of chunks.
\<close>

definition spec_clamp :: "nat \<Rightarrow> nat \<Rightarrow> nat \<Rightarrow> nat" where
  "spec_clamp lo hi x = max lo (min hi x)"

definition spec_defaultK :: "nat \<Rightarrow> nat" where
  "spec_defaultK n = min (spec_clamp 3 20 (nat \<lceil>sqrt (real n / 2)\<rceil>)) n"

subsection \<open>Auxiliary notions\<close>

text \<open>The two errors of reading outside an array and of comparing vectors of two lengths.\<close>

definition seedError :: "error \<Rightarrow> bool" where
  "seedError e \<longleftrightarrow> e = VectorsMustHaveSameLength \<or> e = TypeError"

text \<open>All vectors of a list have the dimension \<open>d\<close>.\<close>

definition dimension :: "nat \<Rightarrow> real list list \<Rightarrow> bool" where
  "dimension d vectors \<longleftrightarrow> (\<forall>v\<in>set vectors. length v = d)"

subsection \<open>Sample inputs\<close>

definition plainChunk :: "string \<Rightarrow> real list \<Rightarrow> ChunkForClustering" where
  "plainChunk i e =
     \<lparr> chunk_id = i, chunk_content = [], chunk_filepath = [], embedding = e,
       symbolName = None, symbolType = None \<rparr>"

definition fixedRandom :: "real \<Rightarrow> nat \<Rightarrow> real" where
  "fixedRandom r i = r"

definition noOptions :: ClusteringOptions where
  "noOptions =
     \<lparr> numClusters = None, maxIterations = None, convergenceThreshold = None,
       numRepresentatives = None \<rparr>"





definition sampleCluster :: ConceptCluster where
  "sampleCluster =
     \<lparr> cluster_id = 0, label = [], cluster_size = 2, representativeChunks = [],
       centroid = [Some (19 / 20), Some (1 / 20), Some 0], cluster_keywords = [] \<rparr>"

section \<open>Properties of the keyword score\<close>

subsection \<open>Case folding\<close>

lemma canon_of_lower: "CanonicalizeCode (toLowerCaseCode n) = CanonicalizeCode n"
  unfolding CanonicalizeCode_def toLowerCaseCode_def by auto

lemma lower_of_canon:
  "n < 256 \<Longrightarrow>
   toLowerCaseCode n =
     (let c = CanonicalizeCode n
      in if c = 924 then 181 else if c = 376 then 255 else toLowerCaseCode c)"
  unfolding CanonicalizeCode_def toLowerCaseCode_def Let_def by auto

lemma toLowerCaseCode_less: "n < 256 \<Longrightarrow> toLowerCaseCode n < 256"
  unfolding toLowerCaseCode_def by auto

lemma of_char_toLowerCaseChar:
  "(of_char (toLowerCaseChar c) :: nat) = toLowerCaseCode (of_char c)"
  using toLowerCaseCode_less[OF nat_of_char_less_256, of c]
  by (simp add: toLowerCaseChar_def)

lemma Canonicalize_eq_iff:
  "Canonicalize a = Canonicalize b \<longleftrightarrow> toLowerCaseChar a = toLowerCaseChar b"
proof -
  let ?n = "of_char a :: nat" and ?m = "of_char b :: nat"
  have n: "?n < 256" and m: "?m < 256" by (rule nat_of_char_less_256)+
  have "toLowerCaseChar a = toLowerCaseChar b \<longleftrightarrow>
        (of_char (toLowerCaseChar a) :: nat) = of_char (toLowerCaseChar b)"
    by simp
  also have "\<dots> \<longleftrightarrow> toLowerCaseCode ?n = toLowerCaseCode ?m"
    by (simp only: of_char_toLowerCaseChar)
  also have "\<dots> \<longleftrightarrow> CanonicalizeCode ?n = CanonicalizeCode ?m"
    by (metis canon_of_lower lower_of_canon n m)
  finally show ?thesis by (simp add: Canonicalize_def)
qed

lemma matchAtoms_plain:
  "matchAtoms (map PatternCharacter t) s \<longleftrightarrow>
     length t \<le> length s \<and> toLowerCase (take (length t) s) = toLowerCase t"
proof (induction t arbitrary: s)
  case Nil
  then show ?case by (simp add: toLowerCase_def)
next
  case (Cons c t)
  show ?case
  proof (cases s)
    case Nil
    then show ?thesis by simp
  next
    case (Cons d s')
    then show ?thesis
      using Cons.IH[of s'] by (auto simp: toLowerCase_def Canonicalize_eq_iff)
  qed
qed

lemma testAtoms_plain:
  "testAtoms (map PatternCharacter t) content = spec_wholeWordMatch t content"
  unfolding testAtoms_def spec_wholeWordMatch_def list_ex_iff
  by (auto simp: matchAtoms_plain)

lemma compileTerm_plain:
  "\<not> list_ex SyntaxCharacter t \<Longrightarrow> compileTerm t = Atoms (map PatternCharacter t)"
proof -
  assume a: "\<not> list_ex SyntaxCharacter t"
  have dot: "SyntaxCharacter (CHR ''.'')" by (simp add: SyntaxCharacter_def)
  from a have "\<forall>c\<in>set t. \<not> SyntaxCharacter c" by (simp add: list_ex_iff)
  with dot have "\<forall>c\<in>set t. c \<noteq> CHR ''.'' \<and> \<not> SyntaxCharacter c" by auto
  then show ?thesis
    by (auto simp: compileTerm_def list_all_iff)
qed

lemma wordBoundaryRegexTest_plain:
  "\<not> list_ex SyntaxCharacter t \<Longrightarrow>
   wordBoundaryRegexTest host t content = Inr (spec_wholeWordMatch t content)"
  by (simp add: wordBoundaryRegexTest_def compileTerm_plain testAtoms_plain)


subsection \<open>The loop and the sums\<close>

lemma scoreTerms_plain:
  "\<forall>t\<in>set terms. \<not> list_ex SyntaxCharacter t \<Longrightarrow>
   scoreTerms host content (toLowerCase content) (toLowerCase path) terms (m, b) =
     Inr (m + spec_matchCount terms content path, b + spec_exactBonus terms content)"
proof (induction terms arbitrary: m b)
  case Nil
  then show ?case by (simp add: spec_matchCount_def spec_exactBonus_def)
next
  case (Cons t terms)
  then have t: "\<not> list_ex SyntaxCharacter t"
    and rest: "\<forall>t\<in>set terms. \<not> list_ex SyntaxCharacter t" by simp_all
  show ?case
    by (simp add: wordBoundaryRegexTest_plain[OF t] Cons.IH[OF rest]
        spec_matchCount_def spec_exactBonus_def)
qed

lemma keyword_score_plain_terms:
  assumes "queryTermsOf query \<noteq> []"
    and "\<forall>t\<in>set (queryTermsOf query). \<not> list_ex SyntaxCharacter t"
  shows "calculateKeywordScore host query content path = Inr (spec_keywordScore query content path)"
  using assms
  by (simp add: calculateKeywordScore_def spec_keywordScore_def Let_def scoreTerms_plain
      min.commute add.commute)

lemma scoreTerms_bounds:
  "scoreTerms host content cl pl terms (m, b) = Inr (m', b') \<Longrightarrow> 0 \<le> m \<Longrightarrow> 0 \<le> b \<Longrightarrow>
   0 \<le> m' \<and> 0 \<le> b'"
proof (induction terms arbitrary: m b)
  case Nil
  then show ?case by simp
next
  case (Cons t terms)
  show ?case
  proof (cases "str_includes cl t")
    case True
    with Cons.prems(1) obtain hit where
      run: "scoreTerms host content cl pl terms
         (if str_includes pl t then m + 1 + 1 / 2 else m + 1, if hit then b + 1 / 2 else b) = Inr (m', b')"
      by (auto split: sum.splits)
    show ?thesis
      by (rule Cons.IH[OF run]) (use Cons.prems in auto)
  next
    case False
    with Cons.prems(1) have
      run: "scoreTerms host content cl pl terms (if str_includes pl t then m + 1 / 2 else m, b) = Inr (m', b')"
      by simp
    show ?thesis
      by (rule Cons.IH[OF run]) (use Cons.prems in auto)
  qed
qed

lemma keyword_score_no_terms:
  "queryTermsOf query = [] \<Longrightarrow> calculateKeywordScore host query content path = Inr 0"
  by (simp add: calculateKeywordScore_def)

lemma keyword_score_range:
  assumes "calculateKeywordScore host query content path = Inr r"
  shows "0 \<le> r \<and> r \<le> 1"
proof (cases "queryTermsOf query = []")
  case True
  with assms show ?thesis by (simp add: calculateKeywordScore_def)
next
  case False
  with assms obtain m b where
    run: "scoreTerms host content (toLowerCase content) (toLowerCase path) (queryTermsOf query) (0, 0) = Inr (m, b)"
    and r: "r = min (m / real (length (queryTermsOf query)) +
                     min (b / real (length (queryTermsOf query))) (1 / 2)) 1"
    by (auto simp: calculateKeywordScore_def Let_def split: sum.splits)
  from scoreTerms_bounds[OF run] have "0 \<le> m" "0 \<le> b" by simp_all
  then have "0 \<le> m / real (length (queryTermsOf query))"
    and "0 \<le> b / real (length (queryTermsOf query))" by simp_all
  with r show ?thesis by (simp add: min_def)
qed

text \<open>
  C1. The claim: for a query with a term longer than two characters the score is
  \<open>min(1, matchCount/termCount + min(0.5, exactBonus/termCount))\<close>, the bonus counting the terms
  with a whole-word match for the term. For terms without pattern syntax that is lemma
  \<open>keyword_score_plain_terms\<close>. The source pastes the term into the regular expression
  unescaped: for the query \<open>a.c zzz\<close> and the content \<open>xa.c abc\<close> the dot matches the \<open>b\<close> of
  \<open>abc\<close>, the bonus is granted with no whole-word occurrence of \<open>a.c\<close>, and the score is 3/4
  where the claim's formula gives 1/2.
\<close>

theorem keyword_score_wildcard_term:
  "calculateKeywordScore host ''a.c zzz'' ''xa.c abc'' '''' = Inr (3 / 4) \<and>
   spec_keywordScore ''a.c zzz'' ''xa.c abc'' '''' = 1 / 2"
  by code_simp

text \<open>
  C8. The claim: the score is total and lies between 0 and 1, and is 0 when the query has
  no term longer than two characters. The last two parts are lemmas \<open>keyword_score_range\<close>
  and \<open>keyword_score_no_terms\<close>. It is not total: for the query \<open>(ab\<close> and a content that
  contains \<open>(ab\<close> the pattern has a group that is never closed, and constructing the regular
  expression throws a SyntaxError.
\<close>

theorem keyword_score_throws:
  "calculateKeywordScore host ''(ab'' ''(ab'' ''test.ts'' = Inl SyntaxError"
  by code_simp

section \<open>Properties of the combined score\<close>

text \<open>
  C2, as stated, fails for a negative weight: the weights 2 and -1 sum to 1, the scores 1 and
  0 lie in the unit interval, the combined score is 2, and raising the keyword score to 1
  lowers it to 1.
\<close>

theorem combined_score_negative_weight:
  "(2::real) + (- 1) = 1 \<and> (0::real) \<le> 1 \<and> (1::real) \<le> 1 \<and>
   \<not> calculateCombinedScore 1 0 2 (- 1) \<le> 1 \<and>
   \<not> calculateCombinedScore 1 0 2 (- 1) \<le> calculateCombinedScore 1 1 2 (- 1)"
  by (simp add: calculateCombinedScore_def)

text \<open>
  C2, amended: for weights that are not negative and sum to 1 and scores in the unit
  interval, the combined score lies in the unit interval, and raising either score, the
  other one fixed, never lowers it.
\<close>

theorem combined_score_bounded_monotone:
  assumes "0 \<le> semanticWeight" and "0 \<le> keywordWeight"
    and "semanticWeight + keywordWeight = 1"
    and "0 \<le> s" and "s \<le> 1" and "0 \<le> k" and "k \<le> 1"
  shows "0 \<le> calculateCombinedScore s k semanticWeight keywordWeight \<and>
         calculateCombinedScore s k semanticWeight keywordWeight \<le> 1 \<and>
         (\<forall>s'. s \<le> s' \<longrightarrow> calculateCombinedScore s k semanticWeight keywordWeight
                          \<le> calculateCombinedScore s' k semanticWeight keywordWeight) \<and>
         (\<forall>k'. k \<le> k' \<longrightarrow> calculateCombinedScore s k semanticWeight keywordWeight
                          \<le> calculateCombinedScore s k' semanticWeight keywordWeight)"
proof -
  have a: "semanticWeight * s \<le> semanticWeight * 1"
    by (rule mult_left_mono) (use assms in auto)
  have b: "keywordWeight * k \<le> keywordWeight * 1"
    by (rule mult_left_mono) (use assms in auto)
  have lo: "0 \<le> semanticWeight * s + keywordWeight * k"
    using assms by simp
  have hi: "semanticWeight * s + keywordWeight * k \<le> 1"
    using a b assms(3) by linarith
  have ms: "semanticWeight * s \<le> semanticWeight * s'" if "s \<le> s'" for s'
    by (rule mult_left_mono) (use that assms in auto)
  have mk: "keywordWeight * k \<le> keywordWeight * k'" if "k \<le> k'" for k'
    by (rule mult_left_mono) (use that assms in auto)
  show ?thesis
    unfolding calculateCombinedScore_def using lo hi ms mk by auto
qed

theorem combined_score_bounded_monotone_witness:
  "(0::real) \<le> 7 / 10 \<and> (0::real) \<le> 3 / 10 \<and> (7::real) / 10 + 3 / 10 = 1 \<and>
   0 \<le> calculateCombinedScore (9 / 10) (1 / 10) (7 / 10) (3 / 10) \<and>
   calculateCombinedScore (9 / 10) (1 / 10) (7 / 10) (3 / 10) \<le> 1 \<and>
   calculateCombinedScore (9 / 10) (1 / 10) (7 / 10) (3 / 10)
     \<le> calculateCombinedScore 1 (1 / 10) (7 / 10) (3 / 10) \<and>
   calculateCombinedScore (9 / 10) (1 / 10) (7 / 10) (3 / 10)
     \<le> calculateCombinedScore (9 / 10) (1 / 2) (7 / 10) (3 / 10)"
  using combined_score_bounded_monotone[of "7 / 10" "3 / 10" "9 / 10" "1 / 10"]
  by simp

section \<open>Properties of the batch embedding\<close>












section \<open>Properties of the argument parser\<close>

text \<open>
  C6, as stated, fails for an empty string: \<open>code: ""\<close> is a string-valued code argument,
  and the parser throws the validation error.
\<close>

theorem parse_similar_empty_code:
  "isString (getArg (Some [''code'' \<mapsto> JSString '''']) ''code'') \<and>
   parseSearchSimilarArgs (Some [''code'' \<mapsto> JSString '''']) =
     Inl (LanceContextError ''Either code or filepath must be provided'' ''validation''
            [(''tool'', ''search_similar'')])"
  by (simp add: parseSearchSimilarArgs_def getArg_def stringArg_def isString_def falsy_def)

text \<open>
  C6, amended: the parser throws an error of category validation if and only if neither
  \<open>code\<close> nor \<open>filepath\<close> is a string that is not empty; it throws no other error, and when
  one of the two is such a string it returns, with the limit 10 unless \<open>limit\<close> is a
  number.
\<close>

theorem parse_similar_validation:
  "((\<exists>msg ctx. parseSearchSimilarArgs args = Inl (LanceContextError msg ''validation'' ctx)) \<longleftrightarrow>
      \<not> (\<exists>s. getArg args ''code'' = JSString s \<and> s \<noteq> []) \<and>
      \<not> (\<exists>s. getArg args ''filepath'' = JSString s \<and> s \<noteq> [])) \<and>
   (\<forall>e. parseSearchSimilarArgs args = Inl e \<longrightarrow>
      (\<exists>msg ctx. e = LanceContextError msg ''validation'' ctx)) \<and>
   ((\<exists>s. getArg args ''code'' = JSString s \<and> s \<noteq> []) \<or>
    (\<exists>s. getArg args ''filepath'' = JSString s \<and> s \<noteq> []) \<longrightarrow>
      (\<exists>r. parseSearchSimilarArgs args = Inr r \<and>
           limit r = (case getArg args ''limit'' of JSNumber n \<Rightarrow> n | _ \<Rightarrow> 10)))"
  by (cases "getArg args ''code''"; cases "getArg args ''filepath''"; cases "getArg args ''limit''")
     (auto simp: parseSearchSimilarArgs_def stringArg_def numberArg_def isString_def falsy_def Let_def)

theorem parse_similar_validation_witness:
  "(\<exists>r. parseSearchSimilarArgs (Some [''filepath'' \<mapsto> JSString ''a.ts'']) = Inr r \<and> limit r = 10) \<and>
   (\<exists>msg ctx. parseSearchSimilarArgs None = Inl (LanceContextError msg ''validation'' ctx))"
  using parse_similar_validation[of "Some [''filepath'' \<mapsto> JSString ''a.ts'']"]
    parse_similar_validation[of None]
  by (simp add: getArg_def)

text \<open>
  C10. Whenever the parser returns, \<open>excludeSelf\<close> is true exactly if the argument is not the
  boolean \<open>false\<close>: omitted, or of another type, it is true.
\<close>

theorem parse_similar_excludeSelf:
  assumes "parseSearchSimilarArgs args = Inr r"
  shows "excludeSelf r \<longleftrightarrow> getArg args ''excludeSelf'' \<noteq> JSBoolean False"
  using assms
  by (auto simp: parseSearchSimilarArgs_def Let_def split: if_splits)

theorem parse_similar_excludeSelf_witness:
  "(\<exists>r. parseSearchSimilarArgs (Some [''code'' \<mapsto> JSString ''x'', ''excludeSelf'' \<mapsto> JSNumber 0]) = Inr r \<and>
        excludeSelf r) \<and>
   (\<exists>r. parseSearchSimilarArgs (Some [''code'' \<mapsto> JSString ''x'']) = Inr r \<and> excludeSelf r)"
proof -
  let ?a = "Some [''code'' \<mapsto> JSString ''x'', ''excludeSelf'' \<mapsto> JSNumber 0]"
  let ?b = "Some [''code'' \<mapsto> JSString ''x'']"
  obtain r where r: "parseSearchSimilarArgs ?a = Inr r"
    by (simp add: parseSearchSimilarArgs_def getArg_def stringArg_def isString_def falsy_def)
  obtain q where q: "parseSearchSimilarArgs ?b = Inr q"
    by (simp add: parseSearchSimilarArgs_def getArg_def stringArg_def isString_def falsy_def)
  have "excludeSelf r" using parse_similar_excludeSelf[OF r] by (simp add: getArg_def)
  moreover have "excludeSelf q" using parse_similar_excludeSelf[OF q] by (simp add: getArg_def)
  ultimately show ?thesis using r q by simp
qed

section \<open>Properties of the silhouette score\<close>

text \<open>
  C7. With fewer than two clusters, or fewer than two chunks, the silhouette score is 0,
  whatever the chunks, the assignments and the clusters are.
\<close>

theorem silhouette_zero:
  assumes "length cs < 2 \<or> length chunks < 2"
  shows "calculateSilhouetteScore chunks asg cs = Inr 0"
  using assms by (auto simp: calculateSilhouetteScore_def)

theorem silhouette_zero_witness:
  "calculateSilhouetteScore [plainChunk ''a'' [1, 0, 0], plainChunk ''b'' [9 / 10, 1 / 10, 0]]
     [(''a'', 0), (''b'', 0)] [sampleCluster] = Inr 0"
  using silhouette_zero[of "[sampleCluster]" "[plainChunk ''a'' [1, 0, 0], plainChunk ''b'' [9 / 10, 1 / 10, 0]]"
      "[(''a'', 0), (''b'', 0)]"]
  by simp

section \<open>Properties of the clustering result\<close>

subsection \<open>Maps as lists of entries\<close>

lemma update_fresh: "k \<notin> fst ` set al \<Longrightarrow> AList.update k v al = al @ [(k, v)]"
  by (induction al) auto

lemma fold_update_distinct:
  "distinct (map fst al @ map fst ps) \<Longrightarrow> fold (\<lambda>(k, v). AList.update k v) ps al = al @ ps"
proof (induction ps arbitrary: al)
  case Nil
  then show ?case by simp
next
  case (Cons p ps)
  obtain k v where p: "p = (k, v)" by (cases p)
  from Cons.prems p have fresh: "k \<notin> fst ` set al" by auto
  from Cons.prems p have "distinct (map fst (al @ [(k, v)]) @ map fst ps)" by auto
  from Cons.IH[OF this] show ?case
    by (simp add: p update_fresh[OF fresh])
qed

lemma snd_set_update: "snd ` set (AList.update k v al) \<subseteq> insert v (snd ` set al)"
  by (induction al) auto

lemma snd_set_fold_update:
  "snd ` set (fold (\<lambda>(k, v). AList.update k v) ps al) \<subseteq> snd ` set ps \<union> snd ` set al"
proof (induction ps arbitrary: al)
  case Nil
  then show ?case by simp
next
  case (Cons p ps)
  obtain k v where p: "p = (k, v)" by (cases p)
  have "snd ` set (fold (\<lambda>(k, v). AList.update k v) ps (AList.update k v al))
          \<subseteq> snd ` set ps \<union> snd ` set (AList.update k v al)"
    by (rule Cons.IH)
  also have "\<dots> \<subseteq> snd ` set ps \<union> insert v (snd ` set al)"
    using snd_set_update[of k v al] by auto
  finally show ?case by (auto simp: p)
qed

lemma assignmentsOf_fold:
  "assignmentsOf chunks ca =
     fold (\<lambda>(k, v). AList.update k v) (zip (map chunk_id chunks) ca) []"
proof -
  have "zip (map chunk_id chunks) ca = map (\<lambda>(chunk, a). (chunk_id chunk, a)) (zip chunks ca)"
    by (simp add: zip_map1)
  then show ?thesis
    by (simp add: assignmentsOf_def fold_map comp_def case_prod_unfold)
qed

lemma assignmentsOf_zip:
  assumes "distinct (map chunk_id chunks)" and "length ca = length chunks"
  shows "assignmentsOf chunks ca = zip (map chunk_id chunks) ca"
proof -
  have "distinct (map fst (zip (map chunk_id chunks) ca))"
    using assms by simp
  then show ?thesis
    using fold_update_distinct[of "[]" "zip (map chunk_id chunks) ca"]
    by (simp add: assignmentsOf_fold)
qed

lemma assignmentsOf_values: "snd ` set (assignmentsOf chunks ca) \<subseteq> set ca"
proof -
  have "snd ` set (assignmentsOf chunks ca) \<subseteq> snd ` set (zip (map chunk_id chunks) ca)"
    using snd_set_fold_update[of "zip (map chunk_id chunks) ca" "[]"]
    by (simp add: assignmentsOf_fold)
  also have "\<dots> \<subseteq> set ca"
    by (auto dest: set_zip_rightD)
  finally show ?thesis .
qed

lemma idMappingOf_zip:
  assumes "distinct (map cluster_id cs)"
  shows "idMappingOf cs = zip (map cluster_id cs) [0..<length cs]"
proof -
  have z: "zip (map cluster_id cs) [0..<length cs] =
           map (\<lambda>(cluster, newId). (cluster_id cluster, newId)) (zip cs [0..<length cs])"
    by (simp add: zip_map1)
  have "idMappingOf cs = fold (\<lambda>(k, v). AList.update k v) (zip (map cluster_id cs) [0..<length cs]) []"
    unfolding z by (simp add: idMappingOf_def fold_map comp_def case_prod_unfold)
  moreover have "distinct (map fst (zip (map cluster_id cs) [0..<length cs]))"
    using assms by simp
  ultimately show ?thesis
    using fold_update_distinct[of "[]" "zip (map cluster_id cs) [0..<length cs]"] by simp
qed

lemma idMappingOf_nth:
  assumes "distinct (map cluster_id cs)" and "j < length cs"
  shows "map_of (idMappingOf cs) (cluster_id (cs ! j)) = Some j"
proof -
  have "map_of (zip (map cluster_id cs) [0..<length cs]) (map cluster_id cs ! j) = Some ([0..<length cs] ! j)"
    by (rule map_of_zip_nth) (use assms in simp_all)
  then show ?thesis
    using assms by (simp add: idMappingOf_zip)
qed

lemma renumber_ids: "map cluster_id (renumber cs) = [0..<length cs]"
proof -
  have "map cluster_id (renumber cs) = map snd (zip cs [0..<length cs])"
    by (simp add: renumber_def case_prod_unfold comp_def)
  then show ?thesis by simp
qed

lemma renumber_sizes: "map cluster_size (renumber cs) = map cluster_size cs"
proof -
  have "map cluster_size (renumber cs) = map (cluster_size \<circ> fst) (zip cs [0..<length cs])"
    by (simp add: renumber_def case_prod_unfold comp_def)
  also have "\<dots> = map cluster_size (map fst (zip cs [0..<length cs]))"
    by (simp only: map_map)
  also have "\<dots> = map cluster_size cs"
    by simp
  finally show ?thesis .
qed

lemma length_renumber: "length (renumber cs) = length cs"
  by (simp add: renumber_def)

subsection \<open>The created clusters\<close>

lemma clustersLoop_created:
  "clustersLoop chunks ca cents nr cs acc = Inr created \<Longrightarrow>
   map (\<lambda>cl. (cluster_id cl, cluster_size cl)) created =
     map (\<lambda>cl. (cluster_id cl, cluster_size cl)) acc @
     map (\<lambda>c. (c, length (clusterChunksOf chunks ca c)))
         (filter (\<lambda>c. clusterChunksOf chunks ca c \<noteq> []) cs)"
proof (induction cs arbitrary: acc)
  case Nil
  then show ?case by simp
next
  case (Cons c cs)
  show ?case
  proof (cases "clusterChunksOf chunks ca c = []")
    case True
    with Cons.prems have "clustersLoop chunks ca cents nr cs acc = Inr created" by simp
    from Cons.IH[OF this] True show ?thesis by simp
  next
    case False
    with Cons.prems obtain sortedChunks where
      run: "clustersLoop chunks ca cents nr cs
         (acc @ [\<lparr> cluster_id = c,
                   label = generateClusterLabel (clusterChunksOf chunks ca c) (slice0 sortedChunks nr),
                   cluster_size = length (clusterChunksOf chunks ca c),
                   representativeChunks = map chunk_id (slice0 sortedChunks nr),
                   centroid = map Some (cents ! c),
                   cluster_keywords = extractKeywords (clusterChunksOf chunks ca c) \<rparr>]) = Inr created"
      by (auto simp: Let_def split: sum.splits)
    from Cons.IH[OF run] False show ?thesis by simp
  qed
qed

lemma clusterChunksOf_nonempty:
  assumes "length ca = length chunks" and "a \<in> set ca"
  shows "clusterChunksOf chunks ca a \<noteq> []"
proof -
  from assms(2) obtain i where i: "i < length ca" and a: "ca ! i = a"
    by (auto simp: in_set_conv_nth)
  with assms(1) have "(chunks ! i, a) \<in> set (zip chunks ca)"
    by (auto simp: set_zip)
  then have "\<exists>p\<in>set (zip chunks ca). (\<lambda>(chunk, a'). a' = a) p" by auto
  then have "filter (\<lambda>(chunk, a'). a' = a) (zip chunks ca) \<noteq> []"
    by (simp add: filter_empty_conv)
  then show ?thesis by (simp add: clusterChunksOf_def)
qed

lemma count_by_assignment:
  assumes len: "length ca = length chunks"
    and Q: "\<And>chunk a. (chunk, a) \<in> set (zip chunks ca) \<Longrightarrow> Q chunk \<longleftrightarrow> a = c"
  shows "length (filter Q chunks) = length (clusterChunksOf chunks ca c)"
proof -
  have "map fst (zip chunks ca) = chunks" using len by simp
  then have "length (filter Q chunks) = length (filter Q (map fst (zip chunks ca)))" by simp
  also have "\<dots> = length (filter (Q \<circ> fst) (zip chunks ca))"
    by (simp add: filter_map)
  also have "filter (Q \<circ> fst) (zip chunks ca) = filter (\<lambda>(chunk, a). a = c) (zip chunks ca)"
    by (rule filter_cong) (auto simp: Q)
  finally show ?thesis by (simp add: clusterChunksOf_def)
qed

lemma updateAssignments_map:
  "updateAssignments m asg =
     map (\<lambda>(chunkId, old). (chunkId, case map_of m old of Some n \<Rightarrow> n | None \<Rightarrow> old)) asg"
  by (auto simp: updateAssignments_def split: option.splits)

lemma buildResult_Inr:
  assumes "buildResult chunks k nr cents ca = Inr res"
  obtains created where "list_all (\<lambda>a. a < nat \<lceil>k\<rceil>) ca"
    and "clustersLoop chunks ca cents nr [0..<nat \<lceil>k\<rceil>] [] = Inr created"
    and "res = \<lparr> clusterCount = length (renumber (sortBySize created)),
                  clusters = renumber (sortBySize created),
                  assignments = updateAssignments (idMappingOf (sortBySize created))
                                  (assignmentsOf chunks ca) \<rparr>"
proof (cases "clustersLoop chunks ca cents nr [0..<nat \<lceil>k\<rceil>] []")
  case (Inl e)
  with assms show ?thesis
    by (simp add: buildResult_def split: if_splits)
next
  case (Inr created)
  with assms that[of created] show ?thesis
    by (simp add: buildResult_def Let_def split: if_splits)
qed

lemma buildResult_properties:
  assumes run: "buildResult chunks k nr cents ca = Inr res"
    and len: "length ca = length chunks"
  shows "sorted_wrt (\<ge>) (map cluster_size (clusters res))"
    and "map cluster_id (clusters res) = [0..<clusterCount res]"
    and "distinct (map chunk_id chunks) \<Longrightarrow>
         \<forall>cl\<in>set (clusters res). cluster_size cl =
            length (filter (\<lambda>chunk. map_of (assignments res) (chunk_id chunk) = Some (cluster_id cl)) chunks)"
    and "\<forall>(chunkId, v)\<in>set (assignments res). \<exists>cl\<in>set (clusters res). cluster_id cl = v"
    and "clusterCount res \<le> nat \<lceil>k\<rceil>"
    and "chunks \<noteq> [] \<Longrightarrow> 1 \<le> clusterCount res"
proof -
  from run obtain created where
    bounds: "list_all (\<lambda>a. a < nat \<lceil>k\<rceil>) ca"
    and cl: "clustersLoop chunks ca cents nr [0..<nat \<lceil>k\<rceil>] [] = Inr created"
    and res: "res = \<lparr> clusterCount = length (renumber (sortBySize created)),
                      clusters = renumber (sortBySize created),
                      assignments = updateAssignments (idMappingOf (sortBySize created))
                                      (assignmentsOf chunks ca) \<rparr>"
    by (rule buildResult_Inr)
  define ids where "ids = filter (\<lambda>c. clusterChunksOf chunks ca c \<noteq> []) [0..<nat \<lceil>k\<rceil>]"
  define sc where "sc = sortBySize created"
  define g where "g = (\<lambda>old. case map_of (idMappingOf sc) old of Some n \<Rightarrow> n | None \<Rightarrow> old)"
  from clustersLoop_created[OF cl]
  have pairs: "map (\<lambda>cl. (cluster_id cl, cluster_size cl)) created =
               map (\<lambda>c. (c, length (clusterChunksOf chunks ca c))) ids"
    by (simp add: ids_def)
  have "map fst (map (\<lambda>cl. (cluster_id cl, cluster_size cl)) created) =
        map fst (map (\<lambda>c. (c, length (clusterChunksOf chunks ca c))) ids)"
    by (simp only: pairs)
  then have created_ids: "map cluster_id created = ids"
    by (simp add: comp_def)
  have created_size: "cluster_size cl = length (clusterChunksOf chunks ca (cluster_id cl))"
    if "cl \<in> set created" for cl
  proof -
    from that have "(cluster_id cl, cluster_size cl) \<in> set (map (\<lambda>cl. (cluster_id cl, cluster_size cl)) created)"
      by force
    then show ?thesis unfolding pairs by auto
  qed
  have set_sc: "set sc = set created" by (simp add: sc_def sortBySize_def)
  have "length (map cluster_id created) = length ids"
    by (simp only: created_ids)
  then have len_sc: "length sc = length ids"
    by (simp add: sc_def sortBySize_def)
  have "distinct ids" by (simp add: ids_def)
  then have "distinct (map cluster_id created)" by (simp add: created_ids)
  then have "distinct created" and "inj_on cluster_id (set created)"
    by (simp_all add: distinct_map)
  then have dist_sc: "distinct (map cluster_id sc)"
    by (simp add: distinct_map set_sc) (simp add: sc_def sortBySize_def)
  have "set (map cluster_id created) = set ids"
    by (simp only: created_ids)
  then have ids_sc: "cluster_id ` set sc = set ids"
    by (simp add: set_sc)
  have sorted_sc: "sorted (map (\<lambda>c. - int (cluster_size c)) sc)"
    by (simp add: sc_def sortBySize_def sorted_sort_key)
  have clusters_res: "clusters res = renumber sc" and count_res: "clusterCount res = length sc"
    and asg_res: "assignments res = map (\<lambda>(chunkId, old). (chunkId, g old)) (assignmentsOf chunks ca)"
    by (simp_all add: res sc_def length_renumber updateAssignments_map g_def)

  have new_id: "\<exists>j<length sc. a = cluster_id (sc ! j) \<and> g a = j" if "a \<in> set ca" for a
  proof -
    from bounds that have "a < nat \<lceil>k\<rceil>" by (simp add: list_all_iff)
    with clusterChunksOf_nonempty[OF len that] have "a \<in> set ids" by (simp add: ids_def)
    then have "a \<in> cluster_id ` set sc" by (simp add: ids_sc)
    then obtain j where j: "j < length sc" and a: "a = cluster_id (sc ! j)"
      by (auto simp: in_set_conv_nth)
    from idMappingOf_nth[OF dist_sc j] have "g a = j" by (simp add: g_def a)
    with j a show ?thesis by blast
  qed

  show "sorted_wrt (\<ge>) (map cluster_size (clusters res))"
  proof -
    from sorted_sc have "sorted_wrt (\<lambda>x y. - int (cluster_size x) \<le> - int (cluster_size y)) sc"
      by (simp add: sorted_map)
    then have "sorted_wrt (\<lambda>x y. cluster_size x \<ge> cluster_size y) sc"
      by (rule sorted_wrt_mono_rel[rotated]) simp
    then show ?thesis
      by (simp add: clusters_res renumber_sizes sorted_wrt_map)
  qed
  show "map cluster_id (clusters res) = [0..<clusterCount res]"
    by (simp add: clusters_res count_res renumber_ids)
  show "\<forall>(chunkId, v)\<in>set (assignments res). \<exists>cl\<in>set (clusters res). cluster_id cl = v"
  proof (clarify)
    fix chunkId v assume "(chunkId, v) \<in> set (assignments res)"
    then obtain a where in_asg: "(chunkId, a) \<in> set (assignmentsOf chunks ca)" and v: "v = g a"
      by (auto simp: asg_res)
    from in_asg have "a \<in> snd ` set (assignmentsOf chunks ca)" by force
    with assignmentsOf_values have "a \<in> set ca" by blast
    from new_id[OF this] v have "v < length sc" by auto
    then have "v \<in> set (map cluster_id (renumber sc))" by (simp add: renumber_ids)
    then show "\<exists>cl\<in>set (clusters res). cluster_id cl = v"
      by (auto simp: clusters_res)
  qed
  show "clusterCount res \<le> nat \<lceil>k\<rceil>"
  proof -
    have "length ids \<le> length [0..<nat \<lceil>k\<rceil>]" unfolding ids_def by (rule length_filter_le)
    then show ?thesis by (simp add: count_res len_sc)
  qed
  show "1 \<le> clusterCount res" if "chunks \<noteq> []"
  proof -
    from that len have "ca \<noteq> []" by auto
    then have "hd ca \<in> set ca" by simp
    from new_id[OF this] show ?thesis by (auto simp: count_res)
  qed
  show "\<forall>cl\<in>set (clusters res). cluster_size cl =
          length (filter (\<lambda>chunk. map_of (assignments res) (chunk_id chunk) = Some (cluster_id cl)) chunks)"
    if dist: "distinct (map chunk_id chunks)"
  proof
    fix cl assume "cl \<in> set (clusters res)"
    then obtain j where j: "j < length sc" and cl: "cl = renumber sc ! j"
      by (auto simp: clusters_res in_set_conv_nth length_renumber)
    have jr: "j < length (renumber sc)" using j by (simp only: length_renumber)
    have "cluster_id cl = map cluster_id (renumber sc) ! j"
      unfolding cl by (rule nth_map[OF jr, symmetric])
    also have "\<dots> = j"
      unfolding renumber_ids using j by simp
    finally have id_cl: "cluster_id cl = j" .
    have "sc ! j \<in> set sc" using j by (rule nth_mem)
    then have mem: "sc ! j \<in> set created" by (simp only: set_sc)
    have "cluster_size cl = map cluster_size (renumber sc) ! j"
      unfolding cl by (rule nth_map[OF jr, symmetric])
    also have "\<dots> = cluster_size (sc ! j)"
      unfolding renumber_sizes using j by (rule nth_map)
    also have "\<dots> = length (clusterChunksOf chunks ca (cluster_id (sc ! j)))"
      using mem by (rule created_size)
    finally have size_cl: "cluster_size cl = length (clusterChunksOf chunks ca (cluster_id (sc ! j)))" .
    have final: "assignments res = zip (map chunk_id chunks) (map g ca)"
      by (simp add: asg_res assignmentsOf_zip[OF dist len] zip_map2)
    have lookup: "map_of (assignments res) (chunk_id chunk) = Some (g a)"
      if "(chunk, a) \<in> set (zip chunks ca)" for chunk a
    proof -
      from that obtain i where i0: "i < length (zip chunks ca)" and z: "zip chunks ca ! i = (chunk, a)"
        unfolding in_set_conv_nth by blast
      from i0 have i: "i < length chunks" "i < length ca" by simp_all
      with z have c: "chunks ! i = chunk" and a: "ca ! i = a" by simp_all
      have "map_of (zip (map chunk_id chunks) (map g ca)) (map chunk_id chunks ! i) =
            Some (map g ca ! i)"
        by (rule map_of_zip_nth) (use dist len i in simp_all)
      then have "map_of (zip (map chunk_id chunks) (map g ca)) (chunk_id chunk) = Some (g a)"
        using i c a by simp
      then show ?thesis by (simp only: final)
    qed
    have "length (filter (\<lambda>chunk. map_of (assignments res) (chunk_id chunk) = Some j) chunks) =
          length (clusterChunksOf chunks ca (cluster_id (sc ! j)))"
    proof (rule count_by_assignment[OF len])
      fix chunk a assume in_zip: "(chunk, a) \<in> set (zip chunks ca)"
      then have "a \<in> set ca" by (rule set_zip_rightD)
      from new_id[OF this] obtain i where i: "i < length sc" and a: "a = cluster_id (sc ! i)"
        and ga: "g a = i" by blast
      have "map cluster_id sc ! i = map cluster_id sc ! j \<longleftrightarrow> i = j"
        by (rule nth_eq_iff_index_eq) (use dist_sc i j in simp_all)
      then have "i = j \<longleftrightarrow> a = cluster_id (sc ! j)"
        using i j a by auto
      then show "map_of (assignments res) (chunk_id chunk) = Some j \<longleftrightarrow> a = cluster_id (sc ! j)"
        by (simp add: lookup[OF in_zip] ga)
    qed
    then show "cluster_size cl =
          length (filter (\<lambda>chunk. map_of (assignments res) (chunk_id chunk) = Some (cluster_id cl)) chunks)"
      by (simp add: size_cl id_cl)
  qed
qed

subsection \<open>The assignments of the iteration\<close>

lemma nearestLoop_range:
  "nearestLoop e centroids cs (minDist, nearest) = Inr r \<Longrightarrow> r = nearest \<or> r \<in> set cs"
proof (induction cs arbitrary: minDist nearest)
  case Nil
  then show ?case by simp
next
  case (Cons c cs)
  from Cons.prems obtain d where
    step: "nearestLoop e centroids cs (Some d, c) = Inr r \<or>
           nearestLoop e centroids cs (minDist, nearest) = Inr r"
    by (auto split: if_splits sum.splits)
  then show ?case
    using Cons.IH[of "Some d" c] Cons.IH[of minDist nearest] by auto
qed

lemma assignStep_result:
  "assignStep es centroids kc = Inr asg \<Longrightarrow>
   length asg = length es \<and> (0 < kc \<longrightarrow> (\<forall>a\<in>set asg. a < kc))"
proof (induction es arbitrary: asg)
  case Nil
  then show ?case by simp
next
  case (Cons e es)
  from Cons.prems obtain r rest where
    r: "nearestLoop e centroids [0..<kc] (None, 0) = Inr r"
    and rest: "assignStep es centroids kc = Inr rest" and asg: "asg = r # rest"
    by (auto split: sum.splits)
  from nearestLoop_range[OF r] have "0 < kc \<longrightarrow> r < kc" by auto
  with Cons.IH[OF rest] asg show ?case by simp
qed

lemma lloyd_assignments:
  "lloyd rnd embeddings kc th fuel centroids ca s = Inr (centroids', ca') \<Longrightarrow>
   length ca = length embeddings \<Longrightarrow> length ca' = length embeddings"
proof (induction fuel arbitrary: centroids ca s)
  case 0
  then show ?case by simp
next
  case (Suc fuel)
  from Suc.prems(1) obtain newAssignments where
    a: "assignStep embeddings centroids kc = Inr newAssignments"
    by (auto split: sum.splits)
  from assignStep_result[OF a] have len: "length newAssignments = length embeddings" by simp
  show ?case
  proof (cases "newAssignments = ca")
    case True
    with Suc.prems(1) a len show ?thesis by simp
  next
    case False
    with Suc.prems(1) a obtain newCentroids maxShift s' where
      u: "updateLoop rnd embeddings newAssignments centroids [0..<kc] ([], 0, s) = Inr (newCentroids, maxShift, s')"
      by (auto split: sum.splits)
    show ?thesis
    proof (cases "maxShift < th")
      case True
      with Suc.prems(1) a u False len show ?thesis by simp
    next
      case stay: False
      with Suc.prems(1) a u False have
        "lloyd rnd embeddings kc th fuel newCentroids newAssignments s' = Inr (centroids', ca')"
        by simp
      from Suc.IH[OF this len] show ?thesis .
    qed
  qed
qed

subsection \<open>The two paths of kMeansClustering\<close>

lemma kMeansClustering_empty:
  "kMeansClustering rnd [] options = Inr \<lparr> clusterCount = 0, clusters = [], assignments = [] \<rparr>"
  by (simp add: kMeansClustering_def)

lemma kMeansClustering_single:
  "chunks \<noteq> [] \<Longrightarrow> targetK chunks options \<le> 1 \<Longrightarrow>
   kMeansClustering rnd chunks options =
     singleCluster chunks (case numRepresentatives options of None \<Rightarrow> 3 | Some v \<Rightarrow> v)"
  by (simp add: kMeansClustering_def)

lemma kMeansClustering_many:
  "chunks \<noteq> [] \<Longrightarrow> \<not> targetK chunks options \<le> 1 \<Longrightarrow>
   kMeansClustering rnd chunks options =
     (case initializeCentroidsKMeansPP rnd 0 (map embedding chunks) (targetK chunks options) of
        Inl err \<Rightarrow> Inl err
      | Inr (centroids, s) \<Rightarrow>
          (case lloyd rnd (map embedding chunks) (nat \<lceil>targetK chunks options\<rceil>)
                  (case convergenceThreshold options of None \<Rightarrow> 1 / 1000 | Some v \<Rightarrow> v)
                  (nat \<lceil>case maxIterations options of None \<Rightarrow> 100 | Some v \<Rightarrow> v\<rceil>) centroids
                  (replicate (length chunks) 0) s of
             Inl err \<Rightarrow> Inl err
           | Inr (centroids', clusterAssignments) \<Rightarrow>
               buildResult chunks (targetK chunks options)
                 (case numRepresentatives options of None \<Rightarrow> 3 | Some v \<Rightarrow> v)
                 centroids' clusterAssignments))"
  by (simp add: kMeansClustering_def Let_def)

lemma kMeansClustering_many_Inr:
  assumes "kMeansClustering rnd chunks options = Inr res" and "chunks \<noteq> []"
    and "\<not> targetK chunks options \<le> 1"
  obtains centroids' ca where
    "buildResult chunks (targetK chunks options)
       (case numRepresentatives options of None \<Rightarrow> 3 | Some v \<Rightarrow> v) centroids' ca = Inr res"
    and "length ca = length chunks"
proof -
  let ?k = "targetK chunks options"
  obtain centroids s where
    seed: "initializeCentroidsKMeansPP rnd 0 (map embedding chunks) ?k = Inr (centroids, s)"
    using assms by (cases "initializeCentroidsKMeansPP rnd 0 (map embedding chunks) ?k")
      (auto simp: kMeansClustering_many)
  let ?run = "lloyd rnd (map embedding chunks) (nat \<lceil>?k\<rceil>)
                  (case convergenceThreshold options of None \<Rightarrow> 1 / 1000 | Some v \<Rightarrow> v)
                  (nat \<lceil>case maxIterations options of None \<Rightarrow> 100 | Some v \<Rightarrow> v\<rceil>) centroids
                  (replicate (length chunks) 0) s"
  obtain centroids' ca where run: "?run = Inr (centroids', ca)"
    using assms seed by (cases ?run) (auto simp: kMeansClustering_many)
  from assms seed run have
    b: "buildResult chunks ?k (case numRepresentatives options of None \<Rightarrow> 3 | Some v \<Rightarrow> v) centroids' ca = Inr res"
    by (simp add: kMeansClustering_many)
  from lloyd_assignments[OF run] have "length ca = length chunks" by simp
  with b show ?thesis by (rule that)
qed

subsection \<open>The single cluster\<close>

lemma map_of_fold_zero:
  "map_of (fold (\<lambda>chunk m. AList.update (chunk_id chunk) 0 m) chunks al) key =
     (if key \<in> chunk_id ` set chunks then Some 0 else map_of al key)"
  by (induction chunks arbitrary: al) (auto simp: update_conv')

lemma snd_set_fold_zero:
  "snd ` set (fold (\<lambda>chunk m. AList.update (chunk_id chunk) (0::nat) m) chunks al)
     \<subseteq> insert 0 (snd ` set al)"
proof (induction chunks arbitrary: al)
  case Nil
  then show ?case by auto
next
  case (Cons c chunks)
  have "snd ` set (fold (\<lambda>chunk m. AList.update (chunk_id chunk) (0::nat) m) chunks
                     (AList.update (chunk_id c) 0 al))
          \<subseteq> insert 0 (snd ` set (AList.update (chunk_id c) 0 al))"
    by (rule Cons.IH)
  also have "\<dots> \<subseteq> insert 0 (snd ` set al)"
    using snd_set_update[of "chunk_id c" 0 al] by auto
  finally show ?case by simp
qed

lemma singleCluster_properties:
  assumes run: "singleCluster chunks nr = Inr res"
  shows "sorted_wrt (\<ge>) (map cluster_size (clusters res))"
    and "map cluster_id (clusters res) = [0..<clusterCount res]"
    and "\<forall>cl\<in>set (clusters res). cluster_size cl = length (assignedTo chunks (assignments res) (cluster_id cl))"
    and "\<forall>(chunkId, v)\<in>set (assignments res). \<exists>cl\<in>set (clusters res). cluster_id cl = v"
    and "clusterCount res = 1"
proof -
  from run obtain c where c: "calculateCentroid (map embedding chunks) = Inr c"
    by (cases "calculateCentroid (map embedding chunks)") (simp_all add: singleCluster_def)
  with run have
    cs: "clusters res = [\<lparr> cluster_id = 0,
                            label = generateClusterLabel chunks (slice0 chunks nr),
                            cluster_size = length chunks,
                            representativeChunks = map chunk_id (slice0 chunks nr),
                            centroid = c,
                            cluster_keywords = extractKeywords chunks \<rparr>]"
    and n: "clusterCount res = 1"
    and a: "assignments res = fold (\<lambda>chunk m. AList.update (chunk_id chunk) 0 m) chunks []"
    by (auto simp: singleCluster_def)
  show "sorted_wrt (\<ge>) (map cluster_size (clusters res))" by (simp add: cs)
  show "map cluster_id (clusters res) = [0..<clusterCount res]" by (simp add: cs n)
  show "clusterCount res = 1" by (rule n)
  have "filter (\<lambda>chunk. map_of (assignments res) (chunk_id chunk) = Some 0) chunks = chunks"
    by (rule filter_True) (simp add: a map_of_fold_zero)
  then show "\<forall>cl\<in>set (clusters res). cluster_size cl = length (assignedTo chunks (assignments res) (cluster_id cl))"
    by (simp add: cs assignedTo_def)
  from snd_set_fold_zero[of chunks "[]"] have "snd ` set (assignments res) \<subseteq> {0}"
    by (simp add: a)
  then show "\<forall>(chunkId, v)\<in>set (assignments res). \<exists>cl\<in>set (clusters res). cluster_id cl = v"
    by (force simp: cs)
qed

text \<open>
  C4, amended: for a chunk list that is not empty, a result of \<open>kMeansClustering\<close> has its
  clusters in order of size, largest first, their ids are 0, 1, ... in list order up to the
  cluster count, and every value of the assignments map is the id of a returned cluster;
  when the chunk ids are pairwise distinct, the size of each cluster is the number of chunks
  whose assignment is its id.
\<close>

theorem kMeans_result_invariants:
  assumes run: "kMeansClustering rnd chunks options = Inr res" and nonempty: "chunks \<noteq> []"
  shows "sorted_wrt (\<ge>) (map cluster_size (clusters res)) \<and>
         map cluster_id (clusters res) = [0..<clusterCount res] \<and>
         (distinct (map chunk_id chunks) \<longrightarrow>
            (\<forall>cl\<in>set (clusters res).
               cluster_size cl = length (assignedTo chunks (assignments res) (cluster_id cl)))) \<and>
         (\<forall>(chunkId, v)\<in>set (assignments res). \<exists>cl\<in>set (clusters res). cluster_id cl = v)"
proof (cases "targetK chunks options \<le> 1")
  case True
  with run nonempty have
    "singleCluster chunks (case numRepresentatives options of None \<Rightarrow> 3 | Some v \<Rightarrow> v) = Inr res"
    by (simp add: kMeansClustering_single)
  from singleCluster_properties[OF this] show ?thesis by blast
next
  case False
  from run nonempty False obtain centroids' ca where
    b: "buildResult chunks (targetK chunks options)
          (case numRepresentatives options of None \<Rightarrow> 3 | Some v \<Rightarrow> v) centroids' ca = Inr res"
    and len: "length ca = length chunks"
    by (rule kMeansClustering_many_Inr)
  from buildResult_properties[OF b len] show ?thesis
    unfolding assignedTo_def by blast
qed

subsection \<open>A run on two points\<close>

lemma distance_0_1:
  "euclideanDistance [0] [1] = Inr 1" "euclideanDistance [1] [0] = Inr 1"
  "euclideanDistance [0] [0] = Inr 0" "euclideanDistance [1] [1] = Inr 0"
  by (simp_all add: euclideanDistance_def)

lemma seed_0_1:
  "initializeCentroidsKMeansPP (fixedRandom (1 / 2)) 0 [[0], [1]] 2 = Inr ([[1], [0]], 2)"
  by (simp add: initializeCentroidsKMeansPP_def copyEmbedding_def minDistance_def distance_0_1
      fixedRandom_def Let_def numeral_2_eq_2)

lemma assign_0_1: "assignStep [[0], [1]] [[1], [0]] 2 = Inr [Suc 0, 0]"
  by (simp add: distance_0_1 numeral_2_eq_2)

lemma update_0_1:
  "updateLoop rnd [[0], [1]] [Suc 0, 0] [[1], [0]] [0..<2] ([], 0, 2) = Inr ([[1], [0]], 0, 2)"
  by (simp add: distance_0_1 numeral_2_eq_2 calculateCentroid_def)

lemma lloyd_0_1_Suc:
  "lloyd rnd [[0], [1]] 2 (1 / 1000) (Suc n) [[1], [0]] [0, 0] 2 = Inr ([[1], [0]], [Suc 0, 0])"
  by (simp add: assign_0_1 update_0_1 del: assignStep.simps updateLoop.simps)

lemma lloyd_0_1:
  "lloyd rnd [[0], [1]] 2 (1 / 1000) 100 [[1], [0]] [0, 0] 2 = Inr ([[1], [0]], [Suc 0, 0])"
  using lloyd_0_1_Suc[of rnd 99] by (simp del: lloyd.simps)

lemma label_plain:
  "generateClusterLabel [plainChunk i e] [plainChunk i e] = ''Code''"
  "extractKeywords [plainChunk i e] = []"
  by (simp_all add: plainChunk_def generateClusterLabel_def extractKeywords_def tally_def countChunk_def)

lemma clusters_0_1:
  "clustersLoop [plainChunk i [0], plainChunk j [1]] [Suc 0, 0] [[1], [0]] 3 [0..<2] [] =
     Inr [\<lparr> cluster_id = 0, label = ''Code'', cluster_size = 1, representativeChunks = [j],
              centroid = [Some 1], cluster_keywords = [] \<rparr>,
          \<lparr> cluster_id = 1, label = ''Code'', cluster_size = 1, representativeChunks = [i],
              centroid = [Some 0], cluster_keywords = [] \<rparr>]"
  by (simp add: numeral_2_eq_2 clusterChunksOf_def sortedByDistance_def slice0_def label_plain)
     (simp add: plainChunk_def)

lemma kMeans_0_1:
  "kMeansClustering (fixedRandom (1 / 2)) [plainChunk i [0], plainChunk j [1]] noOptions =
     Inr \<lparr> clusterCount = 2,
           clusters =
             [\<lparr> cluster_id = 0, label = ''Code'', cluster_size = 1, representativeChunks = [j],
                centroid = [Some 1], cluster_keywords = [] \<rparr>,
              \<lparr> cluster_id = 1, label = ''Code'', cluster_size = 1, representativeChunks = [i],
                centroid = [Some 0], cluster_keywords = [] \<rparr>],
           assignments =
             updateAssignments [(0, 0), (1, 1)]
               (assignmentsOf [plainChunk i [0], plainChunk j [1]] [Suc 0, 0]) \<rparr>"
proof -
  have k: "targetK [plainChunk i [0], plainChunk j [1]] noOptions = 2"
    by (simp add: targetK_def noOptions_def defaultNumClusters_def)
  have e: "map embedding [plainChunk i [0], plainChunk j [1]] = [[0], [1]]"
    by (simp add: plainChunk_def)
  have b: "buildResult [plainChunk i [0], plainChunk j [1]] 2 3 [[1], [0]] [Suc 0, 0] =
     Inr \<lparr> clusterCount = 2,
           clusters =
             [\<lparr> cluster_id = 0, label = ''Code'', cluster_size = 1, representativeChunks = [j],
                centroid = [Some 1], cluster_keywords = [] \<rparr>,
              \<lparr> cluster_id = 1, label = ''Code'', cluster_size = 1, representativeChunks = [i],
                centroid = [Some 0], cluster_keywords = [] \<rparr>],
           assignments =
             updateAssignments [(0, 0), (1, 1)]
               (assignmentsOf [plainChunk i [0], plainChunk j [1]] [Suc 0, 0]) \<rparr>"
    unfolding buildResult_def
    by (simp add: clusters_0_1 sortBySize_def idMappingOf_def renumber_def del: clustersLoop.simps)
  show ?thesis
    unfolding kMeansClustering_def Let_def k e
    by (simp add: noOptions_def seed_0_1 lloyd_0_1 b del: lloyd.simps)
qed

text \<open>
  C4, as stated, fails when two chunks share an id: the map of assignments keeps one entry
  for the id. The two chunks below go to different clusters, each cluster has size 1, and
  the map sends both chunks to cluster 0 and none to cluster 1.
\<close>

theorem kMeans_duplicate_ids:
  "kMeansClustering (fixedRandom (1 / 2)) [plainChunk ''x'' [0], plainChunk ''x'' [1]] noOptions =
     Inr \<lparr> clusterCount = 2,
           clusters =
             [\<lparr> cluster_id = 0, label = ''Code'', cluster_size = 1, representativeChunks = [''x''],
                centroid = [Some 1], cluster_keywords = [] \<rparr>,
              \<lparr> cluster_id = 1, label = ''Code'', cluster_size = 1, representativeChunks = [''x''],
                centroid = [Some 0], cluster_keywords = [] \<rparr>],
           assignments = [(''x'', 0)] \<rparr> \<and>
   length (assignedTo [plainChunk ''x'' [0], plainChunk ''x'' [1]] [(''x'', 0)] 1) = 0 \<and>
   length (assignedTo [plainChunk ''x'' [0], plainChunk ''x'' [1]] [(''x'', 0)] 0) = 2"
proof -
  have "updateAssignments [(0, 0), (1, 1)]
          (assignmentsOf [plainChunk ''x'' [0], plainChunk ''x'' [1]] [Suc 0, 0]) = [(''x'', 0)]"
    by (simp add: updateAssignments_def assignmentsOf_def plainChunk_def)
  then show ?thesis
    by (simp add: kMeans_0_1) (simp add: assignedTo_def plainChunk_def)
qed

theorem kMeans_result_invariants_witness:
  "kMeansClustering (fixedRandom (1 / 2)) [plainChunk ''a'' [0], plainChunk ''b'' [1]] noOptions =
     Inr \<lparr> clusterCount = 2,
           clusters =
             [\<lparr> cluster_id = 0, label = ''Code'', cluster_size = 1, representativeChunks = [''b''],
                centroid = [Some 1], cluster_keywords = [] \<rparr>,
              \<lparr> cluster_id = 1, label = ''Code'', cluster_size = 1, representativeChunks = [''a''],
                centroid = [Some 0], cluster_keywords = [] \<rparr>],
           assignments = [(''a'', 1), (''b'', 0)] \<rparr> \<and>
   distinct (map chunk_id [plainChunk ''a'' [0], plainChunk ''b'' [1]]) \<and>
   length (assignedTo [plainChunk ''a'' [0], plainChunk ''b'' [1]] [(''a'', 1), (''b'', 0)] 0) = 1 \<and>
   length (assignedTo [plainChunk ''a'' [0], plainChunk ''b'' [1]] [(''a'', 1), (''b'', 0)] 1) = 1"
proof -
  let ?chunks = "[plainChunk ''a'' [0], plainChunk ''b'' [1]]"
  let ?res = "\<lparr> clusterCount = 2,
           clusters =
             [\<lparr> cluster_id = 0, label = ''Code'', cluster_size = 1, representativeChunks = [''b''],
                centroid = [Some 1], cluster_keywords = [] \<rparr>,
              \<lparr> cluster_id = 1, label = ''Code'', cluster_size = 1, representativeChunks = [''a''],
                centroid = [Some 0], cluster_keywords = [] \<rparr>],
           assignments = [(''a'', 1), (''b'', 0)] \<rparr>"
  have "updateAssignments [(0, 0), (1, 1)] (assignmentsOf ?chunks [Suc 0, 0]) = [(''a'', 1), (''b'', 0)]"
    by (simp add: updateAssignments_def assignmentsOf_def plainChunk_def)
  then have run: "kMeansClustering (fixedRandom (1 / 2)) ?chunks noOptions = Inr ?res"
    by (simp add: kMeans_0_1)
  have d: "distinct (map chunk_id ?chunks)" by (simp add: plainChunk_def)
  have ne: "?chunks \<noteq> []" by simp
  from kMeans_result_invariants[OF run ne] d
  have "\<forall>cl\<in>set (clusters ?res).
          cluster_size cl = length (assignedTo ?chunks (assignments ?res) (cluster_id cl))"
    by blast
  then have "length (assignedTo ?chunks [(''a'', 1), (''b'', 0)] 0) = 1"
    and "length (assignedTo ?chunks [(''a'', 1), (''b'', 0)] 1) = 1"
    by simp_all
  with run d show ?thesis by simp
qed

section \<open>Errors and termination of the clustering\<close>

subsection \<open>Which errors the parts can throw\<close>

lemma euclideanDistance_Inl: "euclideanDistance a b = Inl e \<Longrightarrow> e = VectorsMustHaveSameLength"
  by (simp add: euclideanDistance_def split: if_splits)

lemma copyEmbedding_Inl: "copyEmbedding embeddings idx = Inl e \<Longrightarrow> e = TypeError"
  by (simp add: copyEmbedding_def split: if_splits)

lemma calculateCentroid_Inl: "vectors \<noteq> [] \<Longrightarrow> calculateCentroid vectors \<noteq> Inl e"
  by (cases vectors) (simp_all add: calculateCentroid_def)

lemma minDistLoop_Inl: "minDistLoop e cs m = Inl err \<Longrightarrow> err = VectorsMustHaveSameLength"
proof (induction cs arbitrary: m)
  case Nil
  then show ?case by simp
next
  case (Cons c cs)
  show ?case
  proof (cases "euclideanDistance e c")
    case (Inl x)
    with Cons.prems show ?thesis by (simp add: euclideanDistance_Inl)
  next
    case (Inr d)
    with Cons.prems Cons.IH show ?thesis by simp
  qed
qed

lemma minDistance_Inl: "minDistance e c0 rest = Inl err \<Longrightarrow> err = VectorsMustHaveSameLength"
  by (cases "euclideanDistance e c0")
     (auto simp: minDistance_def dest: euclideanDistance_Inl minDistLoop_Inl)

lemma squaredDistances_Inl:
  "squaredDistances es c0 rest = Inl err \<Longrightarrow> err = VectorsMustHaveSameLength"
proof (induction es)
  case Nil
  then show ?case by simp
next
  case (Cons e es)
  show ?case
  proof (cases "minDistance e c0 rest")
    case (Inl x)
    with Cons.prems show ?thesis by (simp add: minDistance_Inl)
  next
    case (Inr d)
    with Cons.prems Cons.IH show ?thesis
      by (cases "squaredDistances es c0 rest") simp_all
  qed
qed

lemma seedLoop_Inl: "seedLoop rnd embeddings m c0 rest s = Inl err \<Longrightarrow> seedError err"
proof (induction m arbitrary: rest s)
  case 0
  then show ?case by simp
next
  case (Suc m)
  show ?case
  proof (cases "squaredDistances embeddings c0 rest")
    case (Inl x)
    with Suc.prems show ?thesis by (simp add: seedError_def squaredDistances_Inl)
  next
    case (Inr ds)
    show ?thesis
    proof (cases "copyEmbedding embeddings (int (weightedSelect ds 0 (rnd s * sum_list ds)))")
      case (Inl x)
      with Suc.prems Inr show ?thesis by (simp add: Let_def seedError_def copyEmbedding_Inl)
    next
      case (Inr v)
      with Suc.prems \<open>squaredDistances embeddings c0 rest = Inr ds\<close> Suc.IH show ?thesis
        by (simp add: Let_def)
    qed
  qed
qed

lemma initializeCentroidsKMeansPP_Inl:
  "initializeCentroidsKMeansPP rnd s embeddings k = Inl err \<Longrightarrow> seedError err"
  by (cases "copyEmbedding embeddings \<lfloor>rnd s * real (length embeddings)\<rfloor>")
     (auto simp: initializeCentroidsKMeansPP_def Let_def seedError_def
           dest: copyEmbedding_Inl seedLoop_Inl)

lemma nearestLoop_Inl: "nearestLoop e centroids cs acc = Inl err \<Longrightarrow> seedError err"
proof (induction cs arbitrary: acc)
  case Nil
  then show ?case by (cases acc) simp
next
  case (Cons c cs)
  obtain minDist nearest where acc: "acc = (minDist, nearest)" by (cases acc)
  show ?case
  proof (cases "c < length centroids")
    case False
    with Cons.prems acc show ?thesis by (simp add: seedError_def)
  next
    case True
    show ?thesis
    proof (cases "euclideanDistance e (centroids ! c)")
      case (Inl x)
      with Cons.prems acc True show ?thesis by (simp add: seedError_def euclideanDistance_Inl)
    next
      case (Inr d)
      with Cons.prems acc True Cons.IH show ?thesis by (simp split: if_splits)
    qed
  qed
qed

lemma assignStep_Inl: "assignStep es centroids kc = Inl err \<Longrightarrow> seedError err"
proof (induction es)
  case Nil
  then show ?case by simp
next
  case (Cons e es)
  show ?case
  proof (cases "nearestLoop e centroids [0..<kc] (None, 0)")
    case (Inl x)
    with Cons.prems show ?thesis by (simp add: nearestLoop_Inl)
  next
    case (Inr r)
    with Cons.prems Cons.IH show ?thesis
      by (cases "assignStep es centroids kc") simp_all
  qed
qed

lemma distancesTo_Inl: "distancesTo c chunks = Inl err \<Longrightarrow> err = VectorsMustHaveSameLength"
proof (induction chunks)
  case Nil
  then show ?case by simp
next
  case (Cons chunk chunks)
  show ?case
  proof (cases "euclideanDistance (embedding chunk) c")
    case (Inl x)
    with Cons.prems show ?thesis by (simp add: euclideanDistance_Inl)
  next
    case (Inr d)
    with Cons.prems Cons.IH show ?thesis
      by (cases "distancesTo c chunks") simp_all
  qed
qed

lemma sortedByDistance_Inl: "sortedByDistance centroids c chunks = Inl err \<Longrightarrow> seedError err"
  by (cases "distancesTo (centroids ! c) chunks")
     (auto simp: sortedByDistance_def seedError_def split: if_splits dest: distancesTo_Inl)

lemma clustersLoop_Inl: "clustersLoop chunks ca cents nr cs acc = Inl err \<Longrightarrow> seedError err"
proof (induction cs arbitrary: acc)
  case Nil
  then show ?case by simp
next
  case (Cons c cs)
  show ?case
  proof (cases "clusterChunksOf chunks ca c = []")
    case True
    with Cons.prems Cons.IH show ?thesis by simp
  next
    case False
    show ?thesis
    proof (cases "sortedByDistance cents c (clusterChunksOf chunks ca c)")
      case (Inl x)
      with Cons.prems False show ?thesis by (simp add: sortedByDistance_Inl)
    next
      case (Inr sortedChunks)
      with Cons.prems False Cons.IH show ?thesis by (simp add: Let_def)
    qed
  qed
qed

lemma buildResult_Inl:
  "buildResult chunks k nr cents ca = Inl err \<Longrightarrow> seedError err \<or> err = RangeError"
  by (cases "clustersLoop chunks ca cents nr [0..<nat \<lceil>k\<rceil>] []")
     (auto simp: buildResult_def Let_def seedError_def split: if_splits dest: clustersLoop_Inl)

lemma singleCluster_Inr: "chunks \<noteq> [] \<Longrightarrow> \<exists>res. singleCluster chunks nr = Inr res"
  by (cases "calculateCentroid (map embedding chunks)")
     (auto simp: singleCluster_def calculateCentroid_Inl)

subsection \<open>Vectors of one dimension\<close>

lemma euclideanDistance_Inr:
  "length a = length b \<Longrightarrow> \<exists>d. euclideanDistance a b = Inr d"
  by (simp add: euclideanDistance_def)

lemma those_map_Some: "those (map Some xs) = Some xs"
  by (induction xs) simp_all

lemma calculateCentroid_dimension:
  assumes "vectors \<noteq> []" and "dimension d vectors"
  shows "\<exists>c. calculateCentroid vectors = Inr (map Some c) \<and> length c = d"
proof -
  from assms(1) obtain v0 vs where v: "vectors = v0 # vs" by (cases vectors) auto
  with assms(2) have d: "length v0 = d" and all: "\<forall>vec\<in>set vectors. length vec = d"
    by (simp_all add: dimension_def)
  let ?c = "map (\<lambda>i. (\<Sum>vec\<leftarrow>vectors. vec ! i) / real (length vectors)) [0..<d]"
  have "map (\<lambda>i. if list_all (\<lambda>vec. i < length vec) vectors
                   then Some ((\<Sum>vec\<leftarrow>vectors. vec ! i) / real (length vectors)) else None)
            [0..<d] = map Some ?c"
    using all by (simp add: list_all_iff)
  moreover have "calculateCentroid vectors =
      Inr (map (\<lambda>i. if list_all (\<lambda>vec. i < length vec) vectors
                   then Some ((\<Sum>vec\<leftarrow>vectors. vec ! i) / real (length vectors)) else None)
            [0..<length v0])"
    unfolding v by (simp add: calculateCentroid_def)
  ultimately have "calculateCentroid vectors = Inr (map Some ?c)"
    by (simp only: d)
  then show ?thesis by (intro exI[of _ ?c]) simp
qed

lemma dimension_filter:
  "dimension d embeddings \<Longrightarrow>
   dimension d (map fst (filter P (zip embeddings ca)))"
  by (auto simp: dimension_def dest: set_zip_leftD)

lemma copyEmbedding_Inr:
  "copyEmbedding embeddings idx = Inr v \<Longrightarrow> v \<in> set embeddings"
  by (auto simp: copyEmbedding_def split: if_splits)

subsection \<open>The seeding fixes the dimension\<close>

lemma squaredDistances_Inr:
  "squaredDistances es c0 rest = Inr ds \<Longrightarrow>
   length ds = length es \<and> dimension (length c0) es"
proof (induction es arbitrary: ds)
  case Nil
  then show ?case by (simp add: dimension_def)
next
  case (Cons e es)
  from Cons.prems obtain m ds' where
    m: "minDistance e c0 rest = Inr m" and r: "squaredDistances es c0 rest = Inr ds'"
    and ds: "ds = m * m # ds'"
    by (auto split: sum.splits)
  from m have "length e = length c0"
    by (auto simp: minDistance_def euclideanDistance_def split: if_splits sum.splits)
  with Cons.IH[OF r] ds show ?case by (simp add: dimension_def)
qed

lemma seedLoop_dimension:
  "seedLoop rnd embeddings (Suc m) c0 rest s = Inr r \<Longrightarrow> dimension (length c0) embeddings"
  by (cases "squaredDistances embeddings c0 rest") (auto dest: squaredDistances_Inr)

lemma initializeCentroidsKMeansPP_dimension:
  assumes "initializeCentroidsKMeansPP rnd s embeddings k = Inr r" and "1 < k"
  shows "\<exists>d. dimension d embeddings"
proof -
  from assms(1) obtain c0 where
    run: "seedLoop rnd embeddings (nat \<lceil>k\<rceil> - 1) c0 [] (Suc s) = Inr r"
    by (cases "copyEmbedding embeddings \<lfloor>rnd s * real (length embeddings)\<rfloor>")
       (auto simp: initializeCentroidsKMeansPP_def Let_def)
  from assms(2) have "2 \<le> \<lceil>k\<rceil>" by linarith
  then obtain m where "nat \<lceil>k\<rceil> - 1 = Suc m"
    by (cases "nat \<lceil>k\<rceil> - 1") auto
  with run seedLoop_dimension show ?thesis by metis
qed

subsection \<open>No NaN enters the iteration\<close>

lemma updateLoop_Inl:
  assumes "dimension d embeddings"
  shows "updateLoop rnd embeddings ca cents cs acc = Inl err \<Longrightarrow> seedError err"
proof (induction cs arbitrary: acc)
  case Nil
  then show ?case by simp
next
  case (Cons c cs)
  obtain newCentroids maxShift s where acc: "acc = (newCentroids, maxShift, s)"
    by (cases acc) auto
  let ?vs = "map fst (filter (\<lambda>(e, a). a = c) (zip embeddings ca))"
  show ?case
  proof (cases "?vs = []")
    case True
    show ?thesis
    proof (cases "copyEmbedding embeddings \<lfloor>rnd s * real (length embeddings)\<rfloor>")
      case (Inl x)
      with Cons.prems acc True show ?thesis
        by (simp add: seedError_def copyEmbedding_Inl)
    next
      case (Inr v)
      with Cons.prems acc True Cons.IH show ?thesis by simp
    qed
  next
    case False
    from calculateCentroid_dimension[OF False dimension_filter[OF assms]]
    obtain nc where nc: "calculateCentroid ?vs = Inr (map Some nc)" by blast
    show ?thesis
    proof (cases "c < length cents")
      case out: False
      with Cons.prems acc False nc show ?thesis
        by (simp add: those_map_Some seedError_def)
    next
      case True
      show ?thesis
      proof (cases "euclideanDistance (cents ! c) nc")
        case (Inl x)
        with Cons.prems acc False nc True show ?thesis
          by (simp add: those_map_Some seedError_def euclideanDistance_Inl)
      next
        case (Inr shift)
        with Cons.prems acc False nc True Cons.IH show ?thesis
          by (simp add: those_map_Some)
      qed
    qed
  qed
qed

lemma lloyd_Inl:
  assumes "dimension d embeddings"
  shows "lloyd rnd embeddings kc th fuel cents ca s = Inl err \<Longrightarrow> seedError err"
proof (induction fuel arbitrary: cents ca s)
  case 0
  then show ?case by simp
next
  case (Suc fuel)
  show ?case
  proof (cases "assignStep embeddings cents kc")
    case (Inl x)
    with Suc.prems show ?thesis by (simp add: assignStep_Inl)
  next
    case (Inr newAssignments)
    show ?thesis
    proof (cases "updateLoop rnd embeddings newAssignments cents [0..<kc] ([], 0, s)")
      case (Inl x)
      with Suc.prems Inr show ?thesis
        by (simp add: updateLoop_Inl[OF assms] split: if_splits)
    next
      case upd: (Inr r)
      obtain newCentroids maxShift s' where r: "r = (newCentroids, maxShift, s')"
        by (cases r) auto
      with Suc.prems Inr upd Suc.IH show ?thesis
        by (simp split: if_splits)
    qed
  qed
qed

lemma kMeansClustering_Inl:
  assumes "kMeansClustering rnd chunks options = Inl err"
  shows "seedError err \<or> err = RangeError"
proof (cases "chunks = []")
  case True
  with assms show ?thesis by (simp add: kMeansClustering_empty)
next
  case False
  show ?thesis
  proof (cases "targetK chunks options \<le> 1")
    case True
    from singleCluster_Inr[OF False] obtain res where
      "singleCluster chunks (case numRepresentatives options of None \<Rightarrow> 3 | Some v \<Rightarrow> v) = Inr res"
      by blast
    with assms False True show ?thesis
      by (simp add: kMeansClustering_single)
  next
    case many: False
    let ?k = "targetK chunks options"
    show ?thesis
    proof (cases "initializeCentroidsKMeansPP rnd 0 (map embedding chunks) ?k")
      case (Inl x)
      with assms False many show ?thesis
        by (simp add: kMeansClustering_many initializeCentroidsKMeansPP_Inl)
    next
      case (Inr r)
      obtain cents s where r: "r = (cents, s)" by (cases r)
      from many have "1 < ?k" by simp
      from initializeCentroidsKMeansPP_dimension[OF Inr this]
      obtain d where d: "dimension d (map embedding chunks)" by blast
      let ?run = "lloyd rnd (map embedding chunks) (nat \<lceil>?k\<rceil>)
                  (case convergenceThreshold options of None \<Rightarrow> 1 / 1000 | Some v \<Rightarrow> v)
                  (nat \<lceil>case maxIterations options of None \<Rightarrow> 100 | Some v \<Rightarrow> v\<rceil>) cents
                  (replicate (length chunks) 0) s"
      show ?thesis
      proof (cases ?run)
        case (Inl x)
        with assms False many Inr r show ?thesis
          by (simp add: kMeansClustering_many lloyd_Inl[OF d])
      next
        case run: (Inr q)
        obtain cents' ca where q: "q = (cents', ca)" by (cases q)
        with assms False many Inr r run show ?thesis
          by (simp add: kMeansClustering_many buildResult_Inl)
      qed
    qed
  qed
qed

lemma kMeansClustering_no_NaN: "kMeansClustering rnd chunks options \<noteq> Inl NaNInIteration"
  using kMeansClustering_Inl[of rnd chunks options NaNInIteration]
  by (auto simp: seedError_def)

subsection \<open>With vectors of one dimension every part returns\<close>

lemma random_index:
  assumes "0 \<le> r" and "r < 1" and "0 < n"
  shows "0 \<le> \<lfloor>r * real n\<rfloor> \<and> nat \<lfloor>r * real n\<rfloor> < n"
proof -
  have "0 \<le> r * real n" using assms by simp
  then have lo: "0 \<le> \<lfloor>r * real n\<rfloor>" by simp
  have "r * real n < 1 * real n" using assms by (intro mult_strict_right_mono) simp_all
  then have "r * real n < real_of_int (int n)" by simp
  then have "\<lfloor>r * real n\<rfloor> < int n" by (simp only: floor_less_iff)
  moreover from lo have "nat \<lfloor>r * real n\<rfloor> < n \<longleftrightarrow> \<lfloor>r * real n\<rfloor> < int n"
    by (rule nat_less_iff)
  ultimately show ?thesis using lo by blast
qed

lemma copyEmbedding_random:
  assumes "dimension d embeddings" and "embeddings \<noteq> []" and "0 \<le> r" and "r < 1"
  shows "\<exists>v. copyEmbedding embeddings \<lfloor>r * real (length embeddings)\<rfloor> = Inr v \<and> length v = d"
proof -
  from assms(2) have "0 < length embeddings" by simp
  from random_index[OF assms(3,4) this]
  have i: "0 \<le> \<lfloor>r * real (length embeddings)\<rfloor>"
    "nat \<lfloor>r * real (length embeddings)\<rfloor> < length embeddings" by simp_all
  then have "embeddings ! nat \<lfloor>r * real (length embeddings)\<rfloor> \<in> set embeddings" by simp
  with assms(1) have "length (embeddings ! nat \<lfloor>r * real (length embeddings)\<rfloor>) = d"
    by (simp add: dimension_def)
  with i show ?thesis by (simp add: copyEmbedding_def)
qed

lemma minDistLoop_total:
  "dimension d cs \<Longrightarrow> length e = d \<Longrightarrow> \<exists>m'. minDistLoop e cs m = Inr m'"
proof (induction cs arbitrary: m)
  case Nil
  then show ?case by simp
next
  case (Cons c cs)
  then have "length e = length c" and rest: "dimension d cs" by (simp_all add: dimension_def)
  then obtain x where "euclideanDistance e c = Inr x" using euclideanDistance_Inr by blast
  with Cons.IH[OF rest Cons.prems(2)] show ?case by simp
qed

lemma squaredDistances_total:
  assumes "length c0 = d" and "dimension d rest"
  shows "dimension d es \<Longrightarrow> \<exists>ds. squaredDistances es c0 rest = Inr ds"
proof (induction es)
  case Nil
  then show ?case by simp
next
  case (Cons e es)
  then have e: "length e = d" and es: "dimension d es" by (simp_all add: dimension_def)
  from e assms(1) obtain x where x: "euclideanDistance e c0 = Inr x"
    using euclideanDistance_Inr[of e c0] by auto
  from minDistLoop_total[OF assms(2) e] obtain m where "minDistLoop e rest x = Inr m" by blast
  with x have "minDistance e c0 rest = Inr m" by (simp add: minDistance_def)
  with Cons.IH[OF es] show ?case by auto
qed

lemma weightedSelect_range:
  "weightedSelect ds i rand = 0 \<or> (i \<le> weightedSelect ds i rand \<and> weightedSelect ds i rand < i + length ds)"
proof (induction ds arbitrary: i rand)
  case Nil
  then show ?case by simp
next
  case (Cons x ds)
  show ?case
    using Cons.IH[of "Suc i" "rand - x"] by (auto simp: Let_def)
qed

lemma seedLoop_total:
  assumes "dimension d embeddings" and "embeddings \<noteq> []" and "length c0 = d"
  shows "dimension d rest \<Longrightarrow>
         \<exists>cents s'. seedLoop rnd embeddings m c0 rest s = Inr (cents, s') \<and>
                    length cents = Suc (length rest + m) \<and> dimension d cents"
proof (induction m arbitrary: rest s)
  case 0
  with assms(3) show ?case by (simp add: dimension_def)
next
  case (Suc m)
  from squaredDistances_total[OF assms(3) Suc.prems assms(1)]
  obtain ds where ds: "squaredDistances embeddings c0 rest = Inr ds" by blast
  from squaredDistances_Inr[OF ds] assms(2) have len: "length ds = length embeddings" "ds \<noteq> []"
    by auto
  let ?w = "weightedSelect ds 0 (rnd s * sum_list ds)"
  from weightedSelect_range[of ds 0 "rnd s * sum_list ds"] len have w: "?w < length embeddings"
    by auto
  then have "embeddings ! ?w \<in> set embeddings" by simp
  with assms(1) have dv: "length (embeddings ! ?w) = d" by (simp add: dimension_def)
  from w have copy: "copyEmbedding embeddings (int ?w) = Inr (embeddings ! ?w)"
    by (simp add: copyEmbedding_def)
  from Suc.prems dv have "dimension d (rest @ [embeddings ! ?w])" by (simp add: dimension_def)
  from Suc.IH[OF this, of "Suc s"] show ?case
    by (simp add: ds copy Let_def)
qed

lemma initializeCentroidsKMeansPP_total:
  assumes "dimension d embeddings" and "embeddings \<noteq> []" and "0 \<le> rnd s" and "rnd s < 1"
  shows "\<exists>cents s'. initializeCentroidsKMeansPP rnd s embeddings k = Inr (cents, s') \<and>
                    length cents = Suc (nat \<lceil>k\<rceil> - 1) \<and> dimension d cents"
proof -
  from copyEmbedding_random[OF assms] obtain c0 where
    c0: "copyEmbedding embeddings \<lfloor>rnd s * real (length embeddings)\<rfloor> = Inr c0" and d: "length c0 = d"
    by blast
  have "dimension d []" by (simp add: dimension_def)
  from seedLoop_total[OF assms(1,2) d this, of rnd "nat \<lceil>k\<rceil> - 1" "Suc s"] c0
  show ?thesis by (simp add: initializeCentroidsKMeansPP_def Let_def)
qed

lemma nearestLoop_total:
  assumes "dimension d cents" and "length e = d"
  shows "\<forall>c\<in>set cs. c < length cents \<Longrightarrow> \<exists>r. nearestLoop e cents cs acc = Inr r"
proof (induction cs arbitrary: acc)
  case Nil
  then show ?case by (cases acc) simp
next
  case (Cons c cs)
  obtain minDist nearest where acc: "acc = (minDist, nearest)" by (cases acc)
  from Cons.prems have c: "c < length cents" and rest: "\<forall>c\<in>set cs. c < length cents" by simp_all
  from c assms have "length e = length (cents ! c)" by (simp add: dimension_def)
  then obtain x where x: "euclideanDistance e (cents ! c) = Inr x"
    using euclideanDistance_Inr by blast
  from Cons.IH[OF rest, of "(Some x, c)"] Cons.IH[OF rest, of "(minDist, nearest)"]
  show ?case by (simp add: acc c x)
qed

lemma assignStep_total:
  assumes "dimension d cents" and "kc \<le> length cents"
  shows "dimension d es \<Longrightarrow> \<exists>asg. assignStep es cents kc = Inr asg"
proof (induction es)
  case Nil
  then show ?case by simp
next
  case (Cons e es)
  then have e: "length e = d" and es: "dimension d es" by (simp_all add: dimension_def)
  have "\<forall>c\<in>set [0..<kc]. c < length cents" using assms(2) by simp
  from nearestLoop_total[OF assms(1) e this] obtain r where
    "nearestLoop e cents [0..<kc] (None, 0) = Inr r" by blast
  with Cons.IH[OF es] show ?case by auto
qed

lemma updateLoop_total:
  assumes "dimension d embeddings" and "embeddings \<noteq> []" and "dimension d cents"
    and "\<forall>i. 0 \<le> rnd i \<and> rnd i < 1"
  shows "\<forall>c\<in>set cs. c < length cents \<Longrightarrow> dimension d acc \<Longrightarrow>
         \<exists>nc ms s'. updateLoop rnd embeddings ca cents cs (acc, m, s) = Inr (nc, ms, s') \<and>
                    length nc = length acc + length cs \<and> dimension d nc"
proof (induction cs arbitrary: acc m s)
  case Nil
  then show ?case by simp
next
  case (Cons c cs)
  from Cons.prems have c: "c < length cents" and rest: "\<forall>c\<in>set cs. c < length cents" by simp_all
  let ?vs = "map fst (filter (\<lambda>(e, a). a = c) (zip embeddings ca))"
  show ?case
  proof (cases "?vs = []")
    case True
    from assms(4) have "0 \<le> rnd s" "rnd s < 1" by simp_all
    from copyEmbedding_random[OF assms(1,2) this] obtain v where
      v: "copyEmbedding embeddings \<lfloor>rnd s * real (length embeddings)\<rfloor> = Inr v" and dv: "length v = d"
      by blast
    from Cons.prems(2) dv have "dimension d (acc @ [v])" by (simp add: dimension_def)
    from Cons.IH[OF rest this, of m "Suc s"] True v show ?thesis by simp
  next
    case False
    from calculateCentroid_dimension[OF False dimension_filter[OF assms(1)]]
    obtain nc where nc: "calculateCentroid ?vs = Inr (map Some nc)" and dn: "length nc = d" by blast
    from c assms(3) dn have "length (cents ! c) = length nc" by (simp add: dimension_def)
    then obtain shift where shift: "euclideanDistance (cents ! c) nc = Inr shift"
      using euclideanDistance_Inr by blast
    from Cons.prems(2) dn have "dimension d (acc @ [nc])" by (simp add: dimension_def)
    from Cons.IH[OF rest this, of "max m shift" s] False nc c shift show ?thesis
      by (simp add: those_map_Some)
  qed
qed

lemma lloyd_invariant:
  assumes "dimension d embeddings" and "embeddings \<noteq> []" and "\<forall>i. 0 \<le> rnd i \<and> rnd i < 1"
    and "0 < kc"
  shows "dimension d cents \<Longrightarrow> length cents = kc \<Longrightarrow> \<forall>a\<in>set ca. a < kc \<Longrightarrow>
         \<exists>cents' ca'. lloyd rnd embeddings kc th fuel cents ca s = Inr (cents', ca') \<and>
                      dimension d cents' \<and> length cents' = kc \<and> (\<forall>a\<in>set ca'. a < kc)"
proof (induction fuel arbitrary: cents ca s)
  case 0
  then show ?case by simp
next
  case (Suc fuel)
  from Suc.prems(2) have "kc \<le> length cents" by simp
  from assignStep_total[OF Suc.prems(1) this assms(1)] obtain newAssignments where
    a: "assignStep embeddings cents kc = Inr newAssignments" by blast
  from assignStep_result[OF a] assms(4) have bound: "\<forall>a\<in>set newAssignments. a < kc" by simp
  show ?case
  proof (cases "newAssignments = ca")
    case True
    with a Suc.prems bound show ?thesis by simp
  next
    case False
    have "\<forall>c\<in>set [0..<kc]. c < length cents" using Suc.prems(2) by simp
    moreover have "dimension d []" by (simp add: dimension_def)
    ultimately obtain nc ms s' where
      u: "updateLoop rnd embeddings newAssignments cents [0..<kc] ([], 0, s) = Inr (nc, ms, s')"
      and len: "length nc = kc" and dn: "dimension d nc"
      using updateLoop_total[OF assms(1,2) Suc.prems(1) assms(3), of "[0..<kc]" "[]" newAssignments 0 s]
      by auto
    show ?thesis
    proof (cases "ms < th")
      case True
      with a False u len dn bound show ?thesis by simp
    next
      case stay: False
      from Suc.IH[OF dn len bound, of s'] a False u stay show ?thesis by simp
    qed
  qed
qed

lemma distancesTo_total:
  "\<forall>chunk\<in>set chunks. length (embedding chunk) = length c \<Longrightarrow> \<exists>ds. distancesTo c chunks = Inr ds"
proof (induction chunks)
  case Nil
  then show ?case by simp
next
  case (Cons chunk chunks)
  then obtain x where "euclideanDistance (embedding chunk) c = Inr x"
    using euclideanDistance_Inr[of "embedding chunk" c] by auto
  with Cons show ?case by auto
qed

lemma sortedByDistance_total:
  assumes "c < length cents" and "dimension d cents"
    and "\<forall>chunk\<in>set chunks. length (embedding chunk) = d"
  shows "\<exists>sortedChunks. sortedByDistance cents c chunks = Inr sortedChunks"
proof -
  from assms(1,2) have "length (cents ! c) = d" by (simp add: dimension_def)
  with assms(3) have "\<forall>chunk\<in>set chunks. length (embedding chunk) = length (cents ! c)" by simp
  from distancesTo_total[OF this] obtain ds where "distancesTo (cents ! c) chunks = Inr ds" by blast
  with assms(1) show ?thesis by (simp add: sortedByDistance_def)
qed

lemma set_clusterChunksOf: "set (clusterChunksOf chunks ca c) \<subseteq> set chunks"
proof
  fix x assume "x \<in> set (clusterChunksOf chunks ca c)"
  then obtain a where "(x, a) \<in> set (zip chunks ca)"
    by (auto simp: clusterChunksOf_def)
  then show "x \<in> set chunks" by (rule set_zip_leftD)
qed

lemma clustersLoop_total:
  assumes "dimension d cents" and "\<forall>chunk\<in>set chunks. length (embedding chunk) = d"
  shows "\<forall>c\<in>set cs. c < length cents \<Longrightarrow>
         \<exists>created. clustersLoop chunks ca cents nr cs acc = Inr created"
proof (induction cs arbitrary: acc)
  case Nil
  then show ?case by simp
next
  case (Cons c cs)
  from Cons.prems have c: "c < length cents" and rest: "\<forall>c\<in>set cs. c < length cents" by simp_all
  show ?case
  proof (cases "clusterChunksOf chunks ca c = []")
    case True
    with Cons.IH[OF rest, of acc] show ?thesis by simp
  next
    case False
    from assms(2) set_clusterChunksOf[of chunks ca c]
    have "\<forall>chunk\<in>set (clusterChunksOf chunks ca c). length (embedding chunk) = d" by blast
    from sortedByDistance_total[OF c assms(1) this] obtain sortedChunks where
      "sortedByDistance cents c (clusterChunksOf chunks ca c) = Inr sortedChunks" by blast
    with False Cons.IH[OF rest] show ?thesis by (simp add: Let_def)
  qed
qed

lemma buildResult_total:
  assumes "k = of_int \<lfloor>k\<rfloor>" and "\<forall>a\<in>set ca. a < nat \<lceil>k\<rceil>" and "length cents = nat \<lceil>k\<rceil>"
    and "dimension d cents" and "\<forall>chunk\<in>set chunks. length (embedding chunk) = d"
  shows "\<exists>res. buildResult chunks k nr cents ca = Inr res"
proof -
  have "\<forall>c\<in>set [0..<nat \<lceil>k\<rceil>]. c < length cents" using assms(3) by simp
  from clustersLoop_total[OF assms(4,5) this] obtain created where
    "clustersLoop chunks ca cents nr [0..<nat \<lceil>k\<rceil>] [] = Inr created" by blast
  moreover from assms(1) have "\<not> k \<noteq> of_int \<lfloor>k\<rfloor>" by simp
  moreover from assms(2) have "list_all (\<lambda>a. a < nat \<lceil>k\<rceil>) ca" by (simp add: list_all_iff)
  ultimately show ?thesis by (simp add: buildResult_def Let_def)
qed

lemma targetK_integer:
  assumes "\<forall>v. numClusters options = Some v \<longrightarrow> v \<in> \<int>"
  shows "targetK chunks options = of_int \<lfloor>targetK chunks options\<rfloor>"
proof -
  have "defaultNumClusters (length chunks) \<in> \<int>"
    by (simp add: defaultNumClusters_def min_def max_def)
  with assms have "(case numClusters options of None \<Rightarrow> defaultNumClusters (length chunks) | Some v \<Rightarrow> v) \<in> \<int>"
    by (cases "numClusters options") auto
  then have "targetK chunks options \<in> \<int>"
    by (simp add: targetK_def min_def)
  then obtain z where "targetK chunks options = of_int z" by (rule Ints_cases)
  then show ?thesis by simp
qed

lemma kMeansClustering_total:
  assumes same: "\<forall>c\<in>set chunks. \<forall>c'\<in>set chunks. length (embedding c) = length (embedding c')"
    and rnd: "\<forall>i. 0 \<le> rnd i \<and> rnd i < 1"
    and int: "\<forall>v. numClusters options = Some v \<longrightarrow> v \<in> \<int>"
  shows "\<exists>res. kMeansClustering rnd chunks options = Inr res"
proof (cases "chunks = []")
  case True
  then show ?thesis by (simp add: kMeansClustering_empty)
next
  case False
  show ?thesis
  proof (cases "targetK chunks options \<le> 1")
    case True
    with False singleCluster_Inr[OF False] show ?thesis
      by (simp add: kMeansClustering_single)
  next
    case many: False
    let ?k = "targetK chunks options"
    let ?embs = "map embedding chunks"
    define d where "d = length (embedding (hd chunks))"
    from False have "hd chunks \<in> set chunks" by simp
    with same have chunks_d: "\<forall>chunk\<in>set chunks. length (embedding chunk) = d"
      unfolding d_def by blast
    then have dim: "dimension d ?embs" by (simp add: dimension_def)
    from False have ne: "?embs \<noteq> []" by simp
    from many have "2 \<le> \<lceil>?k\<rceil>" by linarith
    then have kc: "0 < nat \<lceil>?k\<rceil>" "Suc (nat \<lceil>?k\<rceil> - 1) = nat \<lceil>?k\<rceil>" by simp_all
    from rnd have "0 \<le> rnd 0" "rnd 0 < 1" by simp_all
    from initializeCentroidsKMeansPP_total[of d ?embs rnd 0 ?k, OF dim ne this] kc obtain cents s where
      seed: "initializeCentroidsKMeansPP rnd 0 ?embs ?k = Inr (cents, s)"
      and lc: "length cents = nat \<lceil>?k\<rceil>" and dc: "dimension d cents" by auto
    have "\<forall>a\<in>set (replicate (length chunks) 0). a < nat \<lceil>?k\<rceil>" using kc by simp
    from lloyd_invariant[OF dim ne rnd kc(1) dc lc this] obtain cents' ca where
      run: "lloyd rnd ?embs (nat \<lceil>?k\<rceil>)
              (case convergenceThreshold options of None \<Rightarrow> 1 / 1000 | Some v \<Rightarrow> v)
              (nat \<lceil>case maxIterations options of None \<Rightarrow> 100 | Some v \<Rightarrow> v\<rceil>) cents
              (replicate (length chunks) 0) s = Inr (cents', ca)"
      and dc': "dimension d cents'" and lc': "length cents' = nat \<lceil>?k\<rceil>"
      and bound: "\<forall>a\<in>set ca. a < nat \<lceil>?k\<rceil>" by blast
    from buildResult_total[OF targetK_integer[OF int] bound lc' dc' chunks_d]
    obtain res where
      "buildResult chunks ?k (case numRepresentatives options of None \<Rightarrow> 3 | Some v \<Rightarrow> v) cents' ca = Inr res"
      by blast
    with False many seed run show ?thesis
      by (simp add: kMeansClustering_many)
  qed
qed

text \<open>
  C9, as stated, fails: \<open>kMeansClustering\<close> is not total. Two chunks whose embeddings differ
  in length make the seeding compare them, and \<open>euclideanDistance\<close> throws.
\<close>

theorem kMeans_mixed_dimensions:
  "kMeansClustering (fixedRandom 0) [plainChunk ''a'' [1, 0], plainChunk ''b'' [1, 0, 0]] noOptions =
     Inl VectorsMustHaveSameLength"
proof -
  let ?chunks = "[plainChunk ''a'' [1, 0], plainChunk ''b'' [1, 0, 0]]"
  have k: "targetK ?chunks noOptions = 2"
    by (simp add: targetK_def noOptions_def defaultNumClusters_def)
  have e: "map embedding ?chunks = [[1, 0], [1, 0, 0]]"
    by (simp add: plainChunk_def)
  have "initializeCentroidsKMeansPP (fixedRandom 0) 0 [[1, 0], [1, 0, 0]] 2 = Inl VectorsMustHaveSameLength"
    by (simp add: initializeCentroidsKMeansPP_def copyEmbedding_def minDistance_def
        euclideanDistance_def fixedRandom_def numeral_2_eq_2)
  then show ?thesis
    unfolding kMeansClustering_def Let_def k e by simp
qed

text \<open>
  C9, amended: for the empty chunk list \<open>kMeansClustering\<close> returns no cluster and an empty
  map; on no input does it throw the error of the centroid of an empty set; and it returns
  on every input whose embeddings all have the same length, given random numbers in
  \<open>[0, 1)\<close> and a \<open>numClusters\<close> option that is an integer when supplied.
\<close>

theorem kMeans_returns:
  "kMeansClustering rnd [] options = Inr \<lparr> clusterCount = 0, clusters = [], assignments = [] \<rparr> \<and>
   kMeansClustering rnd chunks options \<noteq> Inl CannotCalculateCentroidOfEmptySet \<and>
   ((\<forall>c\<in>set chunks. \<forall>c'\<in>set chunks. length (embedding c) = length (embedding c')) \<and>
    (\<forall>i. 0 \<le> rnd i \<and> rnd i < 1) \<and>
    (\<forall>v. numClusters options = Some v \<longrightarrow> v \<in> \<int>) \<longrightarrow>
    (\<exists>res. kMeansClustering rnd chunks options = Inr res))"
proof (intro conjI impI)
  show "kMeansClustering rnd [] options = Inr \<lparr> clusterCount = 0, clusters = [], assignments = [] \<rparr>"
    by (rule kMeansClustering_empty)
  show "kMeansClustering rnd chunks options \<noteq> Inl CannotCalculateCentroidOfEmptySet"
    using kMeansClustering_Inl[of rnd chunks options CannotCalculateCentroidOfEmptySet]
    by (auto simp: seedError_def)
next
  assume "(\<forall>c\<in>set chunks. \<forall>c'\<in>set chunks. length (embedding c) = length (embedding c')) \<and>
    (\<forall>i. 0 \<le> rnd i \<and> rnd i < 1) \<and>
    (\<forall>v. numClusters options = Some v \<longrightarrow> v \<in> \<int>)"
  then show "\<exists>res. kMeansClustering rnd chunks options = Inr res"
    by (intro kMeansClustering_total) blast+
qed

theorem kMeans_returns_witness:
  "(\<exists>res. kMeansClustering (fixedRandom (1 / 2)) [plainChunk ''a'' [0], plainChunk ''b'' [1]] noOptions =
          Inr res) \<and>
   length (embedding (plainChunk ''a'' [0])) = length (embedding (plainChunk ''b'' [1])) \<and>
   0 \<le> fixedRandom (1 / 2) 0 \<and> fixedRandom (1 / 2) 0 < 1 \<and> numClusters noOptions = None"
  using kMeans_returns[of "fixedRandom (1 / 2)" noOptions "[plainChunk ''a'' [0], plainChunk ''b'' [1]]"]
  by (simp add: plainChunk_def fixedRandom_def noOptions_def)

subsection \<open>The number of clusters\<close>

lemma seedLoop_length:
  "seedLoop rnd embeddings m c0 rest s = Inr (cents, s') \<Longrightarrow> length cents = Suc (length rest + m)"
proof (induction m arbitrary: rest s)
  case 0
  then show ?case by auto
next
  case (Suc m)
  from Suc.prems obtain ds v where
    "seedLoop rnd embeddings m c0 (rest @ [v]) (Suc s) = Inr (cents, s')"
    by (auto simp: Let_def split: sum.splits)
  from Suc.IH[OF this] show ?case by simp
qed

lemma initializeCentroidsKMeansPP_length:
  assumes "initializeCentroidsKMeansPP rnd s embeddings k = Inr (cents, s')"
  shows "length cents = Suc (nat \<lceil>k\<rceil> - 1)"
proof -
  from assms obtain c0 where
    "seedLoop rnd embeddings (nat \<lceil>k\<rceil> - 1) c0 [] (Suc s) = Inr (cents, s')"
    by (cases "copyEmbedding embeddings \<lfloor>rnd s * real (length embeddings)\<rfloor>")
       (auto simp: initializeCentroidsKMeansPP_def Let_def)
  from seedLoop_length[OF this] show ?thesis by simp
qed

lemma clamp_of_int:
  "0 \<le> c \<Longrightarrow> max 3 (min 20 (real_of_int c)) = real (max 3 (min 20 (nat c)))"
  by (simp add: of_nat_max of_nat_min)

lemma defaultNumClusters_spec:
  "defaultNumClusters n = real (spec_clamp 3 20 (nat \<lceil>sqrt (real n / 2)\<rceil>))"
proof -
  have "0 \<le> sqrt (real n / 2)" by simp
  then have "0 \<le> \<lceil>sqrt (real n / 2)\<rceil>" by linarith
  from clamp_of_int[OF this] show ?thesis
    by (simp only: defaultNumClusters_def spec_clamp_def)
qed

lemma targetK_default:
  "numClusters options = None \<Longrightarrow> targetK chunks options = real (spec_defaultK (length chunks))"
  by (simp add: targetK_def defaultNumClusters_spec spec_defaultK_def of_nat_min)

lemma spec_defaultK_positive: "0 < n \<Longrightarrow> 1 \<le> spec_defaultK n"
  by (simp add: spec_defaultK_def spec_clamp_def)

lemma spec_defaultK_le: "spec_defaultK n \<le> n"
  by (simp add: spec_defaultK_def)

lemma targetK_given:
  "numClusters options = Some (real K) \<Longrightarrow> K \<le> length chunks \<Longrightarrow> targetK chunks options = real K"
  by (simp add: targetK_def)

lemma kMeansClustering_target:
  assumes "chunks \<noteq> []" and "targetK chunks options = real K"
  shows "kMeansClustering rnd chunks options =
     (if K \<le> 1 then singleCluster chunks (case numRepresentatives options of None \<Rightarrow> 3 | Some v \<Rightarrow> v)
      else
        (case initializeCentroidsKMeansPP rnd 0 (map embedding chunks) (real K) of
           Inl err \<Rightarrow> Inl err
         | Inr (centroids, s) \<Rightarrow>
             (case lloyd rnd (map embedding chunks) K
                     (case convergenceThreshold options of None \<Rightarrow> 1 / 1000 | Some v \<Rightarrow> v)
                     (nat \<lceil>case maxIterations options of None \<Rightarrow> 100 | Some v \<Rightarrow> v\<rceil>) centroids
                     (replicate (length chunks) 0) s of
                Inl err \<Rightarrow> Inl err
              | Inr (centroids', clusterAssignments) \<Rightarrow>
                  buildResult chunks (real K)
                    (case numRepresentatives options of None \<Rightarrow> 3 | Some v \<Rightarrow> v)
                    centroids' clusterAssignments)))"
proof (cases "K \<le> 1")
  case True
  then have "targetK chunks options \<le> 1" by (simp add: assms(2))
  from kMeansClustering_single[OF assms(1) this] True show ?thesis by simp
next
  case False
  then have "\<not> targetK chunks options \<le> 1" by (simp add: assms(2))
  from kMeansClustering_many[OF assms(1) this, of rnd] False show ?thesis
    unfolding assms(2) ceiling_of_nat nat_int by (simp only: if_False)
qed

lemma kMeansClustering_same_target:
  assumes "targetK chunks options = targetK chunks options'"
    and "maxIterations options = maxIterations options'"
    and "convergenceThreshold options = convergenceThreshold options'"
    and "numRepresentatives options = numRepresentatives options'"
  shows "kMeansClustering rnd chunks options = kMeansClustering rnd chunks options'"
  unfolding kMeansClustering_def assms by (rule refl)

text \<open>
  C5. For a chunk list that is not empty and no \<open>numClusters\<close> option, \<open>kMeansClustering\<close>
  runs with the target \<open>k\<close> that is the ceiling of \<open>sqrt(n/2)\<close> clamped into 3..20 and capped
  at the number \<open>n\<close> of chunks: it returns the single cluster when that \<open>k\<close> is 1, and
  otherwise what seeding \<open>k\<close> centroids, iterating over \<open>k\<close> centroids and building the
  result from \<open>k\<close> clusters give; this is the run with \<open>numClusters\<close> given as that \<open>k\<close>. The
  seeding, when it returns, has picked \<open>k\<close> centroids, and a result has at least one and at
  most \<open>k\<close> clusters.
\<close>

theorem default_cluster_count:
  assumes nonempty: "chunks \<noteq> []" and none: "numClusters options = None"
  shows "targetK chunks options = real (spec_defaultK (length chunks)) \<and>
         (\<forall>rnd. kMeansClustering rnd chunks options =
            (if spec_defaultK (length chunks) \<le> 1
             then singleCluster chunks (case numRepresentatives options of None \<Rightarrow> 3 | Some v \<Rightarrow> v)
             else
               (case initializeCentroidsKMeansPP rnd 0 (map embedding chunks)
                       (real (spec_defaultK (length chunks))) of
                  Inl err \<Rightarrow> Inl err
                | Inr (centroids, s) \<Rightarrow>
                    (case lloyd rnd (map embedding chunks) (spec_defaultK (length chunks))
                            (case convergenceThreshold options of None \<Rightarrow> 1 / 1000 | Some v \<Rightarrow> v)
                            (nat \<lceil>case maxIterations options of None \<Rightarrow> 100 | Some v \<Rightarrow> v\<rceil>)
                            centroids (replicate (length chunks) 0) s of
                       Inl err \<Rightarrow> Inl err
                     | Inr (centroids', clusterAssignments) \<Rightarrow>
                         buildResult chunks (real (spec_defaultK (length chunks)))
                           (case numRepresentatives options of None \<Rightarrow> 3 | Some v \<Rightarrow> v)
                           centroids' clusterAssignments)))) \<and>
         (\<forall>rnd. kMeansClustering rnd chunks options =
            kMeansClustering rnd chunks
              (options\<lparr>numClusters := Some (real (spec_defaultK (length chunks)))\<rparr>)) \<and>
         (\<forall>rnd cents s.
            initializeCentroidsKMeansPP rnd 0 (map embedding chunks) (targetK chunks options) = Inr (cents, s) \<longrightarrow>
            length cents = spec_defaultK (length chunks)) \<and>
         (\<forall>rnd res. kMeansClustering rnd chunks options = Inr res \<longrightarrow>
            1 \<le> clusterCount res \<and> clusterCount res \<le> spec_defaultK (length chunks))"
proof -
  let ?K = "spec_defaultK (length chunks)"
  let ?given = "options\<lparr>numClusters := Some (real ?K)\<rparr>"
  have k: "targetK chunks options = real ?K" by (rule targetK_default[OF none])
  from nonempty have pos: "1 \<le> ?K" by (intro spec_defaultK_positive) simp
  have kc: "nat \<lceil>targetK chunks options\<rceil> = ?K" by (simp add: k)
  have run: "kMeansClustering rnd chunks options =
            (if ?K \<le> 1
             then singleCluster chunks (case numRepresentatives options of None \<Rightarrow> 3 | Some v \<Rightarrow> v)
             else
               (case initializeCentroidsKMeansPP rnd 0 (map embedding chunks) (real ?K) of
                  Inl err \<Rightarrow> Inl err
                | Inr (centroids, s) \<Rightarrow>
                    (case lloyd rnd (map embedding chunks) ?K
                            (case convergenceThreshold options of None \<Rightarrow> 1 / 1000 | Some v \<Rightarrow> v)
                            (nat \<lceil>case maxIterations options of None \<Rightarrow> 100 | Some v \<Rightarrow> v\<rceil>)
                            centroids (replicate (length chunks) 0) s of
                       Inl err \<Rightarrow> Inl err
                     | Inr (centroids', clusterAssignments) \<Rightarrow>
                         buildResult chunks (real ?K)
                           (case numRepresentatives options of None \<Rightarrow> 3 | Some v \<Rightarrow> v)
                           centroids' clusterAssignments)))" for rnd
    by (rule kMeansClustering_target[OF nonempty k])
  have "numClusters ?given = Some (real ?K)" by simp
  then have "targetK chunks ?given = real ?K"
    using spec_defaultK_le by (rule targetK_given)
  with k have "targetK chunks options = targetK chunks ?given" by simp
  then have same: "kMeansClustering rnd chunks options = kMeansClustering rnd chunks ?given" for rnd
    by (rule kMeansClustering_same_target) simp_all
  have seed: "length cents = ?K"
    if "initializeCentroidsKMeansPP rnd 0 (map embedding chunks) (targetK chunks options) = Inr (cents, s)"
    for rnd cents s
    using initializeCentroidsKMeansPP_length[OF that] pos by (simp add: kc)
  have count: "1 \<le> clusterCount res \<and> clusterCount res \<le> ?K"
    if run: "kMeansClustering rnd chunks options = Inr res" for rnd res
  proof (cases "targetK chunks options \<le> 1")
    case True
    with run nonempty have
      "singleCluster chunks (case numRepresentatives options of None \<Rightarrow> 3 | Some v \<Rightarrow> v) = Inr res"
      by (simp add: kMeansClustering_single)
    from singleCluster_properties(5)[OF this] pos show ?thesis by simp
  next
    case False
    from run nonempty False obtain centroids' ca where
      b: "buildResult chunks (targetK chunks options)
            (case numRepresentatives options of None \<Rightarrow> 3 | Some v \<Rightarrow> v) centroids' ca = Inr res"
      and len: "length ca = length chunks"
      by (rule kMeansClustering_many_Inr)
    from buildResult_properties(5)[OF b len] buildResult_properties(6)[OF b len nonempty]
    show ?thesis by (simp add: kc)
  qed
  show ?thesis
  proof (intro conjI allI impI)
    show "targetK chunks options = real ?K" by (rule k)
  next
    fix rnd
    show "kMeansClustering rnd chunks options = kMeansClustering rnd chunks ?given" by (rule same)
  next
    fix rnd cents s
    assume "initializeCentroidsKMeansPP rnd 0 (map embedding chunks) (targetK chunks options) = Inr (cents, s)"
    then show "length cents = ?K" by (rule seed)
  next
    fix rnd res assume "kMeansClustering rnd chunks options = Inr res"
    then show "1 \<le> clusterCount res" "clusterCount res \<le> ?K" using count by blast+
  next
    fix rnd
    show "kMeansClustering rnd chunks options =
            (if ?K \<le> 1
             then singleCluster chunks (case numRepresentatives options of None \<Rightarrow> 3 | Some v \<Rightarrow> v)
             else
               (case initializeCentroidsKMeansPP rnd 0 (map embedding chunks) (real ?K) of
                  Inl err \<Rightarrow> Inl err
                | Inr (centroids, s) \<Rightarrow>
                    (case lloyd rnd (map embedding chunks) ?K
                            (case convergenceThreshold options of None \<Rightarrow> 1 / 1000 | Some v \<Rightarrow> v)
                            (nat \<lceil>case maxIterations options of None \<Rightarrow> 100 | Some v \<Rightarrow> v\<rceil>)
                            centroids (replicate (length chunks) 0) s of
                       Inl err \<Rightarrow> Inl err
                     | Inr (centroids', clusterAssignments) \<Rightarrow>
                         buildResult chunks (real ?K)
                           (case numRepresentatives options of None \<Rightarrow> 3 | Some v \<Rightarrow> v)
                           centroids' clusterAssignments)))" by (rule run)
  qed
qed

theorem default_cluster_count_witness:
  "[plainChunk ''a'' [0], plainChunk ''b'' [1]] \<noteq> [] \<and> numClusters noOptions = None \<and>
   spec_defaultK (length [plainChunk ''a'' [0], plainChunk ''b'' [1]]) = 2 \<and>
   targetK [plainChunk ''a'' [0], plainChunk ''b'' [1]] noOptions = 2 \<and>
   map_sum id clusterCount
     (kMeansClustering (fixedRandom (1 / 2)) [plainChunk ''a'' [0], plainChunk ''b'' [1]] noOptions) =
     Inr 2 \<and>
   map_sum id clusterCount
     (kMeansClustering (fixedRandom (1 / 2)) [plainChunk ''a'' [0], plainChunk ''b'' [1]]
        (noOptions\<lparr>numClusters := Some 2\<rparr>)) = Inr 2 \<and>
   spec_defaultK (length (replicate 50 (plainChunk ''a'' [0]))) = 5 \<and>
   targetK (replicate 50 (plainChunk ''a'' [0])) noOptions = 5"
proof -
  let ?two = "[plainChunk ''a'' [0], plainChunk ''b'' [1]]"
  let ?fifty = "replicate 50 (plainChunk ''a'' [0])"
  have n: "numClusters noOptions = None" by (simp add: noOptions_def)
  have k2: "spec_defaultK (length ?two) = 2"
    by (simp add: spec_defaultK_def spec_clamp_def)
  have k50: "spec_defaultK (length ?fifty) = 5"
    by (simp add: spec_defaultK_def spec_clamp_def)
  have ne2: "?two \<noteq> []" and ne50: "?fifty \<noteq> []" by simp_all
  note two = default_cluster_count[OF ne2 n]
  note fifty = default_cluster_count[OF ne50 n]
  from two have t2: "targetK ?two noOptions = 2" by (simp only: k2 of_nat_numeral)
  from fifty have t50: "targetK ?fifty noOptions = 5" by (simp only: k50 of_nat_numeral)
  from two have "kMeansClustering (fixedRandom (1 / 2)) ?two noOptions =
      kMeansClustering (fixedRandom (1 / 2)) ?two
        (noOptions\<lparr>numClusters := Some (real (spec_defaultK (length ?two)))\<rparr>)"
    by blast
  then have same: "kMeansClustering (fixedRandom (1 / 2)) ?two (noOptions\<lparr>numClusters := Some 2\<rparr>) =
      kMeansClustering (fixedRandom (1 / 2)) ?two noOptions"
    by (simp only: k2 of_nat_numeral)
  have run: "map_sum id clusterCount (kMeansClustering (fixedRandom (1 / 2)) ?two noOptions) = Inr 2"
    by (simp add: kMeans_0_1)
  from ne2 n k2 t2 run k50 t50 show ?thesis
    by (simp only: same simp_thms)
qed

end
